theory Spec2Isabelle
  imports Main "HOL-Library.AList"
begin

text \<open>
  A model of the campground application. The source file holds four modules one after the
  other: the campgrounds router (lines 1 to 63), the reviews router (lines 64 to 103), an
  application that registers every route itself (lines 104 to 242, the single-file
  application below) and the application that mounts the two routers (lines 244 to 299,
  the router-based application). A request is a value, the store is passed through the
  handlers, and what a handler throws or rejects with is a value of the error type.

  The behaviour of the web framework that the applications rely on is part of the model:
  an error thrown by a synchronous middleware goes to the error-handling middleware; the
  promise that an \<open>async\<close> handler returns is dropped, so its rejection reaches the
  error-handling middleware only if the handler itself passes it on; a route registered
  for \<open>GET\<close> also answers \<open>HEAD\<close>, and the response to \<open>HEAD\<close> has no body; the literal
  parts of a route's path match without regard to case and with or without a slash at the
  end; and a mounted router answers \<open>OPTIONS\<close> itself on the paths of its routes.
\<close>

section \<open>Error values and responses\<close>

text \<open>
  The text of an error message: a text the program gives, or the text that the database
  client or the view engine writes for a failure. The latter two are never empty and are
  not modelled further.
\<close>

datatype msg_text = Text string | Cast_failure string | View_failure string

text \<open>
  A JavaScript error value as the error-handling middleware reads it: the two properties
  \<open>message\<close> and \<open>statusCode\<close>, each of which may be undefined (\<open>None\<close>).
\<close>

record js_error =
  message :: "msg_text option"
  statusCode :: "nat option"

text \<open>
  Modelled from the spec: \<open>utils/ExpressError\<close> is not among the sources. It is the
  Error Type of the specification, "a value carrying a human-readable message and an HTTP
  status code", built by \<open>new ExpressError(message, statusCode)\<close>.
\<close>

definition ExpressError :: "string \<Rightarrow> nat \<Rightarrow> js_error" where
  "ExpressError msg code = \<lparr>message = Some (Text msg), statusCode = Some code\<rparr>"

text \<open>
  The runtime's \<open>TypeError\<close> (reading a property of \<open>null\<close>, calling \<open>undefined\<close>): it
  has a message and no \<open>statusCode\<close> property. The runtime writes the name of the
  property between single quotes.
\<close>

definition TypeError :: "string \<Rightarrow> js_error" where
  "TypeError msg = \<lparr>message = Some (Text msg), statusCode = None\<rparr>"

definition quoted :: "string \<Rightarrow> string" where
  "quoted s = CHR 0x27 # s @ [CHR 0x27]"

definition null_read :: "string \<Rightarrow> js_error" where
  "null_read property = TypeError (''Cannot read properties of null (reading '' @ quoted property @ '')'')"

text \<open>
  The error with which the database client rejects an operation when a value it is given
  is no identifier. It has no \<open>statusCode\<close> property.
\<close>

definition CastError :: "string \<Rightarrow> js_error" where
  "CastError v = \<lparr>message = Some (Cast_failure v), statusCode = None\<rparr>"

type_synonym oid = string

text \<open>The fields of an object, in the order in which they were set.\<close>

type_synonym fields = "(string \<times> string) list"

record campground =
  c_id :: oid
  c_fields :: fields
  reviews :: "oid list"

record review =
  r_id :: oid
  r_fields :: fields

datatype http_method = GET | HEAD | POST | PUT | DELETE | PATCH | OPTIONS

text \<open>
  The data handed to a view: nothing, the list of all campgrounds, one campground (or
  \<open>null\<close>), one campground with its reviews resolved (or \<open>null\<close>), or the error.
\<close>

datatype locals =
    NoLocals
  | LCampgrounds "campground list"
  | LCampground "campground option"
  | LPopulated "(campground \<times> review list) option"
  | LErr js_error

text \<open>
  What a response carries besides its status: a rendered view, the location of a redirect,
  the \<open>Allow\<close> header of an automatic answer to \<open>OPTIONS\<close>, or, for the response to
  \<open>HEAD\<close>, nothing.
\<close>

datatype content = View string locals | Location string | Allow "http_method list" | No_body

record response =
  status :: nat
  content :: content

text \<open>
  What one stage of the pipeline does with a request: it sends a response, it passes an
  error into the error channel (\<open>next(err)\<close>, or a throw the framework catches), or it
  leaves a rejected promise nobody handles, in which case no response is sent.
\<close>

datatype outcome = Responded response | Forwarded js_error | Unhandled js_error

datatype result = Sent response | NoResponse js_error

subsection \<open>The error-handling middleware\<close>

text \<open>\<open>!err.message\<close>: an undefined message and the empty string are both falsy.\<close>

definition no_message :: "js_error \<Rightarrow> bool" where
  "no_message err = (case message err of None \<Rightarrow> True | Some m \<Rightarrow> m = Text [])"

definition error_handler :: "js_error \<Rightarrow> response" where
  "error_handler err =
     (let code = (case statusCode err of None \<Rightarrow> 500 | Some c \<Rightarrow> c);
          err' = (if no_message err
                  then err\<lparr>message := Some (Text ''Oh No, Something Went Wrong!'')\<rparr>
                  else err)
      in \<lparr>status = code, content = View ''error'' (LErr err')\<rparr>)"

definition finish :: "outcome \<Rightarrow> result" where
  "finish out =
     (case out of
        Responded r \<Rightarrow> Sent r
      | Forwarded e \<Rightarrow> Sent (error_handler e)
      | Unhandled e \<Rightarrow> NoResponse e)"

subsection \<open>Validation middleware\<close>

text \<open>
  The result of \<open>schema.validate(req.body)\<close> has an \<open>error\<close> property that is undefined
  when the payload is valid and otherwise carries \<open>details\<close>, each with a message. The
  schemas themselves (\<open>schemas.js\<close>) are not among the sources: a schema is a parameter.
\<close>

record detail =
  el_message :: string

record validation_error =
  details :: "detail list"

record body =
  body_campground :: "fields option"
  body_review :: "fields option"

type_synonym schema = "body \<Rightarrow> validation_error option"

text \<open>\<open>Array.prototype.join\<close> on an array of strings.\<close>

fun join :: "string \<Rightarrow> string list \<Rightarrow> string" where
  "join sep [] = []"
| "join sep [x] = x"
| "join sep (x # y # ys) = x @ sep @ join sep (y # ys)"

text \<open>
  \<open>validateCampground\<close> and \<open>validateReview\<close> have the same body; \<open>Inl\<close> is the thrown
  error, \<open>Inr ()\<close> the call of \<open>next()\<close>.
\<close>

definition validateCampground :: "schema \<Rightarrow> body \<Rightarrow> js_error + unit" where
  "validateCampground campgroundSchema b =
     (case campgroundSchema b of
        Some error \<Rightarrow>
          (let msg = join '','' (map el_message (details error))
           in Inl (ExpressError msg 400))
      | None \<Rightarrow> Inr ())"

definition validateReview :: "schema \<Rightarrow> body \<Rightarrow> js_error + unit" where
  "validateReview reviewSchema b =
     (case reviewSchema b of
        Some error \<Rightarrow>
          (let msg = join '','' (map el_message (details error))
           in Inl (ExpressError msg 400))
      | None \<Rightarrow> Inr ())"

section \<open>The entity store\<close>

text \<open>
  The document database, as the handlers see it through the two models: one collection of
  documents per entity (an \<open>_id\<close> is unique within its collection), the generator of
  identifiers, and the failure that is pending on the connection, if any: while it is set,
  every operation that reaches the store rejects with it. The operations are the
  primitives of the database client that the handlers call: find all, find by id, find by
  id and update, find by id and delete, save, and the pull of a value from an array.
\<close>

record store =
  campground_docs :: "campground list"
  review_docs :: "review list"
  next_id :: nat
  fault :: "js_error option"

subsection \<open>Identifiers\<close>

text \<open>
  An identifier is written as 24 hexadecimal digits. The client draws a new identifier for
  every document it constructs; only that it never repeats one matters here, and the
  \<open>n\<close>-th identifier is \<open>n\<close> written in 24 lower-case hexadecimal digits (in more, should
  \<open>n\<close> ever need them).
\<close>

definition digit :: "nat \<Rightarrow> char" where
  "digit d = ''0123456789abcdef'' ! d"

function hex :: "nat \<Rightarrow> string" where
  "hex n = (if n < 16 then [digit n] else hex (n div 16) @ [digit (n mod 16)])"
  by pat_completeness auto
termination
  by (relation "measure id") auto

declare hex.simps [simp del]

definition objectId :: "nat \<Rightarrow> oid" where
  "objectId n = replicate (24 - length (hex n)) (CHR ''0'') @ hex n"

text \<open>The letters \<open>A\<close> to \<open>Z\<close> in lower case; every other character is left as it is.\<close>

definition lower :: "char \<Rightarrow> char" where
  "lower c =
     (case map_of (zip ''ABCDEFGHIJKLMNOPQRSTUVWXYZ'' ''abcdefghijklmnopqrstuvwxyz'') c of
        None \<Rightarrow> c
      | Some d \<Rightarrow> d)"

definition hex_digit :: "char \<Rightarrow> bool" where
  "hex_digit c = (c \<in> set ''0123456789abcdefABCDEF'')"

text \<open>
  A handler names a document by a string of the request. The client casts the string to an
  identifier before it asks the store: a string of 24 hexadecimal digits is the identifier
  with these digits, in either case of the letters; for any other string the operation
  rejects with a \<open>CastError\<close>. Some versions of the client read a string of 12
  characters as the 12 bytes of an identifier instead of rejecting it; which version the
  applications run is not in the sources, and the theorems about rejected strings leave
  the strings of that length out.
\<close>

definition castObjectId :: "string \<Rightarrow> oid option" where
  "castObjectId v = (if length v = 24 \<and> list_all hex_digit v then Some (map lower v) else None)"

text \<open>An asynchronous operation: it rejects (\<open>Inl\<close>) or resolves (\<open>Inr\<close>), and may change the store.\<close>

type_synonym 'a async = "store \<Rightarrow> (js_error + 'a) \<times> store"

definition await :: "'a async \<Rightarrow> ('a \<Rightarrow> 'b async) \<Rightarrow> 'b async" where
  "await m f s = (case m s of (Inl e, s') \<Rightarrow> (Inl e, s') | (Inr x, s') \<Rightarrow> f x s')"

definition respond :: "js_error + 'a \<Rightarrow> 'a async" where
  "respond r s = (r, s)"

text \<open>An operation on the document that a string names: the cast comes first, then the
  store is asked.\<close>

definition with_id :: "string \<Rightarrow> (oid \<Rightarrow> 'a async) \<Rightarrow> 'a async" where
  "with_id v operation s =
     (case castObjectId v of
        None \<Rightarrow> (Inl (CastError v), s)
      | Some i \<Rightarrow>
          (case fault s of
             Some e \<Rightarrow> (Inl e, s)
           | None \<Rightarrow> operation i s))"

definition the_fields :: "fields option \<Rightarrow> fields" where
  "the_fields obj = (case obj of None \<Rightarrow> [] | Some f \<Rightarrow> f)"

definition by_id :: "oid \<Rightarrow> campground list \<Rightarrow> campground option" where
  "by_id i docs = find (\<lambda>c. c_id c = i) docs"

definition review_by_id :: "oid \<Rightarrow> review list \<Rightarrow> review option" where
  "review_by_id i docs = find (\<lambda>r. r_id r = i) docs"

subsection \<open>Campground model\<close>

definition Campground_find :: "campground list async" where
  "Campground_find s =
     (case fault s of
        Some e \<Rightarrow> (Inl e, s)
      | None \<Rightarrow> (Inr (campground_docs s), s))"

definition Campground_findById :: "string \<Rightarrow> campground option async" where
  "Campground_findById v =
     with_id v (\<lambda>i s. (Inr (by_id i (campground_docs s)), s))"

text \<open>\<open>populate('reviews')\<close>: each reference is replaced by the review it names; a reference
  that names no review is dropped.\<close>

definition populate :: "review list \<Rightarrow> campground \<Rightarrow> campground \<times> review list" where
  "populate rs c = (c, List.map_filter (\<lambda>i. review_by_id i rs) (reviews c))"

definition Campground_findById_populate :: "string \<Rightarrow> (campground \<times> review list) option async" where
  "Campground_findById_populate v =
     with_id v (\<lambda>i s. (Inr (map_option (populate (review_docs s)) (by_id i (campground_docs s))), s))"

text \<open>\<open>new Campground(obj)\<close>: a document with a new identifier and no reviews. The payload
  carries the entity's own fields; an undefined payload gives a document without fields.\<close>

definition new_Campground :: "fields option \<Rightarrow> store \<Rightarrow> campground \<times> store" where
  "new_Campground obj s =
     (\<lparr>c_id = objectId (next_id s), c_fields = the_fields obj, reviews = []\<rparr>,
      s\<lparr>next_id := Suc (next_id s)\<rparr>)"

text \<open>\<open>doc.save()\<close>: the stored document with that identifier is replaced; a document whose
  identifier is not in the collection is added at its end.\<close>

definition put_campground :: "campground \<Rightarrow> campground list \<Rightarrow> campground list" where
  "put_campground d docs =
     (if by_id (c_id d) docs = None then docs @ [d]
      else map (\<lambda>c. if c_id c = c_id d then d else c) docs)"

definition Campground_save :: "campground \<Rightarrow> unit async" where
  "Campground_save d s =
     (case fault s of
        Some e \<Rightarrow> (Inl e, s)
      | None \<Rightarrow> (Inr (), s\<lparr>campground_docs := put_campground d (campground_docs s)\<rparr>))"

text \<open>The two update documents the handlers pass: \<open>{ ...req.body.campground }\<close> sets the
  given fields and keeps the others; \<open>{ $pull: { reviews: reviewId } }\<close> removes every
  occurrence of the identifier from the array. The value to pull is a string of the
  request, which the client casts as it casts the identifier of the document.\<close>

datatype update = SetFields fields | Pull_reviews string

definition cast_update :: "update \<Rightarrow> js_error + update" where
  "cast_update u =
     (case u of
        SetFields f \<Rightarrow> Inr (SetFields f)
      | Pull_reviews v \<Rightarrow>
          (case castObjectId v of
             None \<Rightarrow> Inl (CastError v)
           | Some r \<Rightarrow> Inr (Pull_reviews r)))"

definition apply_update :: "update \<Rightarrow> campground \<Rightarrow> campground" where
  "apply_update u c =
     (case u of
        SetFields f \<Rightarrow> c\<lparr>c_fields := fold (\<lambda>(k, v). AList.update k v) f (c_fields c)\<rparr>
      | Pull_reviews r \<Rightarrow> c\<lparr>reviews := removeAll r (reviews c)\<rparr>)"

text \<open>\<open>findByIdAndUpdate\<close> resolves to the document as it was before the update, or to
  \<open>null\<close> when no document has the identifier.\<close>

definition Campground_findByIdAndUpdate :: "string \<Rightarrow> update \<Rightarrow> campground option async" where
  "Campground_findByIdAndUpdate v u s =
     (case castObjectId v of
        None \<Rightarrow> (Inl (CastError v), s)
      | Some i \<Rightarrow>
          (case cast_update u of
             Inl e \<Rightarrow> (Inl e, s)
           | Inr u' \<Rightarrow>
               (case fault s of
                  Some e \<Rightarrow> (Inl e, s)
                | None \<Rightarrow>
                    (Inr (by_id i (campground_docs s)),
                     s\<lparr>campground_docs :=
                          map (\<lambda>c. if c_id c = i then apply_update u' c else c)
                            (campground_docs s)\<rparr>))))"

text \<open>
  Modelled from the spec: \<open>models/campground\<close> is not among the sources. The specification
  says of Delete Campground: "remove by id; must also remove every Review it owns", and of
  the data model that deleting a campground removes "its review references and the review
  records themselves". \<open>delete_owned_reviews\<close> is that second step, run on the document
  that was removed.
\<close>

definition delete_owned_reviews :: "campground \<Rightarrow> review list \<Rightarrow> review list" where
  "delete_owned_reviews doc rs = filter (\<lambda>r. r_id r \<notin> set (reviews doc)) rs"

definition Campground_findByIdAndDelete :: "string \<Rightarrow> campground option async" where
  "Campground_findByIdAndDelete v =
     with_id v (\<lambda>i s.
       case by_id i (campground_docs s) of
         None \<Rightarrow> (Inr None, s)
       | Some doc \<Rightarrow>
           (Inr (Some doc),
            s\<lparr>campground_docs := filter (\<lambda>c. c_id c \<noteq> i) (campground_docs s),
              review_docs := delete_owned_reviews doc (review_docs s)\<rparr>))"

subsection \<open>Review model\<close>

definition new_Review :: "fields option \<Rightarrow> store \<Rightarrow> review \<times> store" where
  "new_Review obj s =
     (\<lparr>r_id = objectId (next_id s), r_fields = the_fields obj\<rparr>,
      s\<lparr>next_id := Suc (next_id s)\<rparr>)"

definition put_review :: "review \<Rightarrow> review list \<Rightarrow> review list" where
  "put_review d docs =
     (if review_by_id (r_id d) docs = None then docs @ [d]
      else map (\<lambda>r. if r_id r = r_id d then d else r) docs)"

definition Review_save :: "review \<Rightarrow> unit async" where
  "Review_save d s =
     (case fault s of
        Some e \<Rightarrow> (Inl e, s)
      | None \<Rightarrow> (Inr (), s\<lparr>review_docs := put_review d (review_docs s)\<rparr>))"

definition Review_findByIdAndDelete :: "string \<Rightarrow> review option async" where
  "Review_findByIdAndDelete v =
     with_id v (\<lambda>i s.
       (Inr (review_by_id i (review_docs s)),
        s\<lparr>review_docs := filter (\<lambda>r. r_id r \<noteq> i) (review_docs s)\<rparr>))"

section \<open>Requests, handlers and routes\<close>

text \<open>
  A request as it reaches the routes, after the body parser and the method override: its
  method, its path, and its parsed body. The path is the list of its parts between the
  slashes: \<open>/campgrounds/new\<close> is \<open>[campgrounds, new]\<close>, \<open>/\<close> is the list of one empty
  part, and a path that ends with a slash has an empty last part. The parts are taken as
  the handlers receive them; percent escapes and the query string are not modelled. The
  framework adds the route parameters; \<open>flash\<close> is the \<open>req.flash\<close> property, undefined
  (\<open>None\<close>) unless some middleware defines it.
\<close>

record request =
  req_method :: http_method
  req_path :: "string list"
  body :: body

record req = request +
  params :: "string \<rightharpoonup> string"
  flash :: "(string \<Rightarrow> string \<Rightarrow> unit) option"

type_synonym handler = "req \<Rightarrow> store \<Rightarrow> outcome \<times> store"

text \<open>A parameter the route does not bind is undefined; no handler reads one.\<close>

definition the_param :: "req \<Rightarrow> string \<Rightarrow> string" where
  "the_param rq k = (case params rq k of None \<Rightarrow> [] | Some v \<Rightarrow> v)"

text \<open>
  Modelled from the spec: the views are not among the sources. The detail view shows the
  campground "with its reviews fully resolved" and the edit view is the form of that
  campground, so each reads properties of the campground it is given, which fails on
  \<open>null\<close> with an error that has no \<open>statusCode\<close>; a view that renders gives status 200.
\<close>

definition view_error :: "string \<Rightarrow> js_error" where
  "view_error view = \<lparr>message = Some (View_failure view), statusCode = None\<rparr>"

definition render :: "string \<Rightarrow> locals \<Rightarrow> js_error + response" where
  "render view l =
     (case l of
        LCampground None \<Rightarrow> Inl (view_error view)
      | LPopulated None \<Rightarrow> Inl (view_error view)
      | _ \<Rightarrow> Inr \<lparr>status = 200, content = View view l\<rparr>)"

definition redirect :: "string \<Rightarrow> response" where
  "redirect url = \<lparr>status = 302, content = Location url\<rparr>"

text \<open>
  Modelled from the spec: \<open>utils/catchAsync\<close> is not among the sources. The Async Handler
  Wrapper "invokes the operation and, if it fails, forwards the failure into the
  surrounding framework's error-propagation channel".
\<close>

definition catchAsync :: "(req \<Rightarrow> response async) \<Rightarrow> handler" where
  "catchAsync fn rq s =
     (case fn rq s of
        (Inl e, s') \<Rightarrow> (Forwarded e, s')
      | (Inr r, s') \<Rightarrow> (Responded r, s'))"

text \<open>An \<open>async\<close> function registered as it is: the framework calls it and drops the
  promise, so a rejection is handled by nobody.\<close>

definition bare_async :: "(req \<Rightarrow> response async) \<Rightarrow> handler" where
  "bare_async fn rq s =
     (case fn rq s of
        (Inl e, s') \<Rightarrow> (Unhandled e, s')
      | (Inr r, s') \<Rightarrow> (Responded r, s'))"

text \<open>A synchronous handler: a throw, or a view that fails, goes to the error channel.\<close>

definition sync :: "(req \<Rightarrow> js_error + response) \<Rightarrow> handler" where
  "sync fn rq s =
     (case fn rq of
        Inl e \<Rightarrow> (Forwarded e, s)
      | Inr r \<Rightarrow> (Responded r, s))"

text \<open>A validation middleware in front of a handler: when it throws, the handler is not
  called.\<close>

definition validated :: "(body \<Rightarrow> js_error + unit) \<Rightarrow> handler \<Rightarrow> handler" where
  "validated validate h rq s =
     (case validate (body rq) of
        Inl e \<Rightarrow> (Forwarded e, s)
      | Inr _ \<Rightarrow> h rq s)"

subsection \<open>Campground handlers\<close>

text \<open>
  The functions of the campgrounds router (lines 20 to 61). The single-file application
  registers functions with the same bodies (lines 166 to 207); what differs is how they are
  registered, which is in the route tables below.
\<close>

definition index_campgrounds :: "req \<Rightarrow> response async" where
  "index_campgrounds rq =
     await Campground_find (\<lambda>campgrounds.
       respond (render ''campgrounds/index'' (LCampgrounds campgrounds)))"

definition new_form :: "req \<Rightarrow> js_error + response" where
  "new_form rq = render ''campgrounds/new'' NoLocals"

definition create_campground :: "req \<Rightarrow> response async" where
  "create_campground rq s =
     (let (campground, s1) = new_Campground (body_campground (body rq)) s
      in await (Campground_save campground) (\<lambda>_.
           respond (Inr (redirect (''/campgrounds/'' @ c_id campground)))) s1)"

definition show_campground :: "req \<Rightarrow> response async" where
  "show_campground rq =
     await (Campground_findById_populate (the_param rq ''id'')) (\<lambda>campground.
       respond (render ''campgrounds/show'' (LPopulated campground)))"

definition edit_form :: "req \<Rightarrow> response async" where
  "edit_form rq =
     await (Campground_findById (the_param rq ''id'')) (\<lambda>campground.
       respond (render ''campgrounds/edit'' (LCampground campground)))"

definition update_campground :: "req \<Rightarrow> response async" where
  "update_campground rq =
     (let i = the_param rq ''id''
      in await (Campground_findByIdAndUpdate i (SetFields (the_fields (body_campground (body rq)))))
           (\<lambda>campground.
              case campground of
                None \<Rightarrow> respond (Inl (null_read ''_id''))
              | Some c \<Rightarrow> respond (Inr (redirect (''/campgrounds/'' @ c_id c)))))"

definition delete_campground :: "req \<Rightarrow> response async" where
  "delete_campground rq =
     (let i = the_param rq ''id''
      in await (Campground_findByIdAndDelete i) (\<lambda>_.
           respond (Inr (redirect ''/campgrounds''))))"

subsection \<open>Review handlers\<close>

text \<open>Creating a review in the single-file application (lines 210 to 217).\<close>

definition create_review :: "req \<Rightarrow> response async" where
  "create_review rq =
     await (Campground_findById (the_param rq ''id'')) (\<lambda>campground s.
       let (review, s1) = new_Review (body_review (body rq)) s
       in case campground of
            None \<Rightarrow> (Inl (null_read ''reviews''), s1)
          | Some c \<Rightarrow>
              (let c' = c\<lparr>reviews := reviews c @ [r_id review]\<rparr>
               in await (Review_save review) (\<lambda>_.
                    await (Campground_save c') (\<lambda>_.
                      respond (Inr (redirect (''/campgrounds/'' @ c_id c'))))) s1))"

text \<open>Creating a review in the reviews router (lines 85 to 93), which calls \<open>req.flash\<close>
  before it redirects.\<close>

definition create_review_flash :: "req \<Rightarrow> response async" where
  "create_review_flash rq =
     await (Campground_findById (the_param rq ''id'')) (\<lambda>campground s.
       let (review, s1) = new_Review (body_review (body rq)) s
       in case campground of
            None \<Rightarrow> (Inl (null_read ''reviews''), s1)
          | Some c \<Rightarrow>
              (let c' = c\<lparr>reviews := reviews c @ [r_id review]\<rparr>
               in await (Review_save review) (\<lambda>_.
                    await (Campground_save c') (\<lambda>_.
                      case flash rq of
                        None \<Rightarrow> respond (Inl (TypeError ''req.flash is not a function''))
                      | Some f \<Rightarrow>
                          (let _ = f ''success'' ''New review added!''
                           in respond (Inr (redirect (''/campgrounds/'' @ c_id c')))))) s1))"

text \<open>Deleting a review (lines 96 to 101, and with the same body lines 220 to 225).\<close>

definition delete_review :: "req \<Rightarrow> response async" where
  "delete_review rq =
     (let i = the_param rq ''id''; reviewId = the_param rq ''reviewId''
      in await (Campground_findByIdAndUpdate i (Pull_reviews reviewId)) (\<lambda>_.
           await (Review_findByIdAndDelete reviewId) (\<lambda>_.
             respond (Inr (redirect (''/campgrounds/'' @ i))))))"

definition home :: "req \<Rightarrow> js_error + response" where
  "home rq = render ''home'' NoLocals"

text \<open>\<open>app.all('*', ...)\<close>: the stage behind all routes.\<close>

definition page_not_found :: handler where
  "page_not_found rq s = (Forwarded (ExpressError ''Page Not Found'' 404), s)"

subsection \<open>Routing\<close>

text \<open>
  The path of a route is a list of literal parts and parameters. Neither application and
  neither router turns on case-sensitive or strict routing: a literal part matches the
  part of the request that has the same letters in any case, a parameter matches any part
  that is not empty, and one slash at the end of the request's path is ignored.
\<close>

datatype seg = Lit string | Param string

datatype route = Route http_method "seg list" handler

text \<open>A route registered for \<open>GET\<close> also answers \<open>HEAD\<close>.\<close>

definition handles_method :: "http_method \<Rightarrow> http_method \<Rightarrow> bool" where
  "handles_method m requested = (m = requested \<or> (requested = HEAD \<and> m = GET))"

definition same_word :: "string \<Rightarrow> string \<Rightarrow> bool" where
  "same_word a b = (map lower a = map lower b)"

definition strip_slash :: "string list \<Rightarrow> string list" where
  "strip_slash xs = (if xs \<noteq> [] \<and> last xs = [] then butlast xs else xs)"

fun match_segs :: "seg list \<Rightarrow> string list \<Rightarrow> (string \<rightharpoonup> string) option" where
  "match_segs [] [] = Some Map.empty"
| "match_segs (Lit l # ps) (x # xs) = (if same_word l x then match_segs ps xs else None)"
| "match_segs (Param k # ps) (x # xs) =
     (if x = [] then None else map_option (\<lambda>m. m(k \<mapsto> x)) (match_segs ps xs))"
| "match_segs _ _ = None"

definition match_path :: "seg list \<Rightarrow> string list \<Rightarrow> (string \<rightharpoonup> string) option" where
  "match_path ps xs = match_segs ps (strip_slash xs)"

fun first_match ::
  "route list \<Rightarrow> http_method \<Rightarrow> string list \<Rightarrow> (handler \<times> (string \<rightharpoonup> string)) option" where
  "first_match [] requested path = None"
| "first_match (Route m p h # rs) requested path =
     (if handles_method m requested
      then (case match_path p path of
              Some ps \<Rightarrow> Some (h, ps)
            | None \<Rightarrow> first_match rs requested path)
      else first_match rs requested path)"

text \<open>
  \<open>app.use(prefix, router)\<close>: the prefix matches the first parts of the request's path,
  and the router sees what is left of the path. A slash that follows the prefix directly
  goes with the prefix.
\<close>

fun match_prefix ::
  "seg list \<Rightarrow> string list \<Rightarrow> ((string \<rightharpoonup> string) \<times> string list) option" where
  "match_prefix [] xs = Some (Map.empty, xs)"
| "match_prefix (Lit l # ps) (x # xs) = (if same_word l x then match_prefix ps xs else None)"
| "match_prefix (Param k # ps) (x # xs) =
     (if x = [] then None
      else map_option (\<lambda>(m, rest). (m(k \<mapsto> x), rest)) (match_prefix ps xs))"
| "match_prefix (p # ps) [] = None"

definition below_prefix :: "string list \<Rightarrow> string list" where
  "below_prefix rest =
     (case rest of
        [] \<Rightarrow> []
      | x # xs \<Rightarrow> (if x = [] \<and> xs \<noteq> [] then xs else rest))"

text \<open>
  A router that ends without a route for an \<open>OPTIONS\<close> request answers it itself when the
  path matched routes of other methods: with status 200 and, in the \<open>Allow\<close> header, the
  methods of these routes in the order of the routes, each method once.
\<close>

fun route_options :: "route \<Rightarrow> http_method list" where
  "route_options (Route m p h) = (if m = GET then [GET, HEAD] else [m])"

fun path_matches :: "route \<Rightarrow> string list \<Rightarrow> bool" where
  "path_matches (Route m p h) path = (match_path p path \<noteq> None)"

definition appendMethods :: "http_method list \<Rightarrow> http_method list \<Rightarrow> http_method list" where
  "appendMethods list addition = fold (\<lambda>m acc. if m \<in> set acc then acc else acc @ [m]) addition list"

definition allowed :: "route list \<Rightarrow> string list \<Rightarrow> http_method list" where
  "allowed routes path =
     fold (\<lambda>rt options. appendMethods options (route_options rt))
       (filter (\<lambda>rt. path_matches rt path) routes) []"

text \<open>
  A layer of an application is a route of its own or a mounted router, which hands its
  parameters on to the routes of the router when the router merges them.
\<close>

datatype layer = Direct route | Mounted "seg list" bool "route list"

datatype found = Handler handler "string \<rightharpoonup> string" | Options "http_method list" | Nothing

fun find_layer :: "layer list \<Rightarrow> request \<Rightarrow> found" where
  "find_layer [] r = Nothing"
| "find_layer (Direct (Route m p h) # ls) r =
     (if handles_method m (req_method r)
      then (case match_path p (req_path r) of
              Some ps \<Rightarrow> Handler h ps
            | None \<Rightarrow> find_layer ls r)
      else find_layer ls r)"
| "find_layer (Mounted prefix merge routes # ls) r =
     (case match_prefix prefix (req_path r) of
        None \<Rightarrow> find_layer ls r
      | Some (parent, rest) \<Rightarrow>
          (case first_match routes (req_method r) (below_prefix rest) of
             Some (h, ps) \<Rightarrow> Handler h (if merge then parent ++ ps else ps)
           | None \<Rightarrow>
               (if req_method r = OPTIONS \<and> allowed routes (below_prefix rest) \<noteq> []
                then Options (allowed routes (below_prefix rest))
                else find_layer ls r)))"

text \<open>
  The stack of an application: the first layer that has a route for the request handles
  it, the catch-all stage handles a request that no layer takes, and an error that a stage
  passes on goes to the error-handling middleware. No middleware of either application
  defines \<open>req.flash\<close>. The response to a \<open>HEAD\<close> request is sent without the rendered
  view.
\<close>

definition headers_only :: "response \<Rightarrow> response" where
  "headers_only rsp = (case content rsp of View v l \<Rightarrow> rsp\<lparr>content := No_body\<rparr> | _ \<Rightarrow> rsp)"

definition send :: "http_method \<Rightarrow> result \<Rightarrow> result" where
  "send requested res =
     (case res of
        Sent rsp \<Rightarrow> Sent (if requested = HEAD then headers_only rsp else rsp)
      | NoResponse e \<Rightarrow> NoResponse e)"

definition serve :: "handler \<Rightarrow> (string \<rightharpoonup> string) \<Rightarrow> request \<Rightarrow> store \<Rightarrow> result \<times> store" where
  "serve h ps r s =
     (let (out, s') = h (request.extend r \<lparr>params = ps, flash = None\<rparr>) s
      in (send (req_method r) (finish out), s'))"

definition dispatch :: "layer list \<Rightarrow> request \<Rightarrow> store \<Rightarrow> result \<times> store" where
  "dispatch layers r s =
     (case find_layer layers r of
        Handler h ps \<Rightarrow> serve h ps r s
      | Options methods \<Rightarrow> (Sent \<lparr>status = 200, content = Allow methods\<rparr>, s)
      | Nothing \<Rightarrow> serve page_not_found Map.empty r s)"

text \<open>Whether a layer has a route for the request, and what a mounted router answers to
  \<open>OPTIONS\<close> on the path of the request.\<close>

fun route_matches :: "route \<Rightarrow> http_method \<Rightarrow> string list \<Rightarrow> bool" where
  "route_matches (Route m p h) requested path =
     (handles_method m requested \<and> match_path p path \<noteq> None)"

fun layer_matches :: "layer \<Rightarrow> request \<Rightarrow> bool" where
  "layer_matches (Direct rt) r = route_matches rt (req_method r) (req_path r)"
| "layer_matches (Mounted prefix merge routes) r =
     (case match_prefix prefix (req_path r) of
        None \<Rightarrow> False
      | Some (parent, rest) \<Rightarrow>
          list_ex (\<lambda>rt. route_matches rt (req_method r) (below_prefix rest)) routes)"

fun layer_allows :: "layer \<Rightarrow> request \<Rightarrow> http_method list" where
  "layer_allows (Direct rt) r = []"
| "layer_allows (Mounted prefix merge routes) r =
     (case match_prefix prefix (req_path r) of
        None \<Rightarrow> []
      | Some (parent, rest) \<Rightarrow> allowed routes (below_prefix rest))"

definition defined_route :: "layer list \<Rightarrow> request \<Rightarrow> bool" where
  "defined_route layers r = list_ex (\<lambda>l. layer_matches l r) layers"

text \<open>The automatic answer to \<open>OPTIONS\<close> of the first mounted router that has one.\<close>

fun automatic_options :: "layer list \<Rightarrow> request \<Rightarrow> http_method list" where
  "automatic_options [] r = []"
| "automatic_options (l # ls) r =
     (if layer_allows l r \<noteq> [] then layer_allows l r else automatic_options ls r)"

text \<open>The handlers of the routes of an application.\<close>

fun routes_of :: "layer \<Rightarrow> route list" where
  "routes_of (Direct rt) = [rt]"
| "routes_of (Mounted prefix merge routes) = routes"

fun route_handler :: "route \<Rightarrow> handler" where
  "route_handler (Route m p h) = h"

definition handlers :: "layer list \<Rightarrow> handler list" where
  "handlers layers = map route_handler (concat (map routes_of layers))"

subsection \<open>The router-based application\<close>

text \<open>The routes of the two routers (lines 20 to 61 and 85 to 101) and the layers of the
  application in the order in which it mounts them (lines 276 to 282), before its
  catch-all stage (line 285). The reviews router merges the parameters of its prefix
  (line 65).\<close>

definition campgrounds_router :: "schema \<Rightarrow> route list" where
  "campgrounds_router campgroundSchema =
     [Route GET [] (catchAsync index_campgrounds),
      Route GET [Lit ''new''] (sync new_form),
      Route POST [] (validated (validateCampground campgroundSchema) (catchAsync create_campground)),
      Route GET [Param ''id''] (catchAsync show_campground),
      Route GET [Param ''id'', Lit ''edit''] (catchAsync edit_form),
      Route PUT [Param ''id''] (validated (validateCampground campgroundSchema) (catchAsync update_campground)),
      Route DELETE [Param ''id''] (catchAsync delete_campground)]"

definition reviews_router :: "schema \<Rightarrow> route list" where
  "reviews_router reviewSchema =
     [Route POST [] (validated (validateReview reviewSchema) (catchAsync create_review_flash)),
      Route DELETE [Param ''reviewId''] (catchAsync delete_review)]"

definition router_layers :: "schema \<Rightarrow> schema \<Rightarrow> layer list" where
  "router_layers campgroundSchema reviewSchema =
     [Mounted [Lit ''campgrounds''] False (campgrounds_router campgroundSchema),
      Mounted [Lit ''campgrounds'', Param ''id'', Lit ''reviews''] True (reviews_router reviewSchema),
      Direct (Route GET [] (sync home))]"

definition router_app :: "schema \<Rightarrow> schema \<Rightarrow> request \<Rightarrow> store \<Rightarrow> result \<times> store" where
  "router_app campgroundSchema reviewSchema = dispatch (router_layers campgroundSchema reviewSchema)"

subsection \<open>The single-file application\<close>

text \<open>The routes in the order in which the application registers them (lines 161 to 225),
  before its catch-all stage (line 228). The list route is the one \<open>async\<close> handler that
  is registered without the wrapper (line 166).\<close>

definition single_routes :: "schema \<Rightarrow> schema \<Rightarrow> route list" where
  "single_routes campgroundSchema reviewSchema =
     [Route GET [] (sync home),
      Route GET [Lit ''campgrounds''] (bare_async index_campgrounds),
      Route GET [Lit ''campgrounds'', Lit ''new''] (sync new_form),
      Route POST [Lit ''campgrounds'']
        (validated (validateCampground campgroundSchema) (catchAsync create_campground)),
      Route GET [Lit ''campgrounds'', Param ''id''] (catchAsync show_campground),
      Route GET [Lit ''campgrounds'', Param ''id'', Lit ''edit''] (catchAsync edit_form),
      Route PUT [Lit ''campgrounds'', Param ''id'']
        (validated (validateCampground campgroundSchema) (catchAsync update_campground)),
      Route DELETE [Lit ''campgrounds'', Param ''id''] (catchAsync delete_campground),
      Route POST [Lit ''campgrounds'', Param ''id'', Lit ''reviews'']
        (validated (validateReview reviewSchema) (catchAsync create_review)),
      Route DELETE [Lit ''campgrounds'', Param ''id'', Lit ''reviews'', Param ''reviewId'']
        (catchAsync delete_review)]"

definition single_layers :: "schema \<Rightarrow> schema \<Rightarrow> layer list" where
  "single_layers campgroundSchema reviewSchema = map Direct (single_routes campgroundSchema reviewSchema)"

definition single_app :: "schema \<Rightarrow> schema \<Rightarrow> request \<Rightarrow> store \<Rightarrow> result \<times> store" where
  "single_app campgroundSchema reviewSchema = dispatch (single_layers campgroundSchema reviewSchema)"

section \<open>The invariants of the data model\<close>

text \<open>Every review a campground refers to is a record of the review collection.\<close>

definition referential :: "store \<Rightarrow> bool" where
  "referential s =
     (\<forall>c \<in> set (campground_docs s). \<forall>rid \<in> set (reviews c).
        review_by_id rid (review_docs s) \<noteq> None)"

text \<open>No review is referred to by two campgrounds: a review is owned by one campground.\<close>

definition exclusive :: "store \<Rightarrow> bool" where
  "exclusive s =
     (\<forall>c \<in> set (campground_docs s). \<forall>d \<in> set (campground_docs s).
        c_id c \<noteq> c_id d \<longrightarrow> set (reviews c) \<inter> set (reviews d) = {})"

text \<open>The reference list of the campground with the given identifier.\<close>

definition reviews_of :: "oid \<Rightarrow> store \<Rightarrow> oid list" where
  "reviews_of i s = (case by_id i (campground_docs s) of None \<Rightarrow> [] | Some c \<Rightarrow> reviews c)"

text \<open>
  The identifiers the generator has handed out so far. In a well-formed store every
  identifier of a document and every reference is one of them, no two documents of a
  collection share an identifier, and no review is shared.
\<close>

definition known :: "store \<Rightarrow> oid \<Rightarrow> bool" where
  "known s x = (\<exists>k < next_id s. x = objectId k)"

definition well_formed :: "store \<Rightarrow> bool" where
  "well_formed s =
     ((\<forall>c \<in> set (campground_docs s). known s (c_id c) \<and> (\<forall>rid \<in> set (reviews c). known s rid)) \<and>
      (\<forall>r \<in> set (review_docs s). known s (r_id r)) \<and>
      distinct (map c_id (campground_docs s)) \<and>
      distinct (map r_id (review_docs s)) \<and>
      exclusive s)"

text \<open>A handler keeps the store well formed.\<close>

definition keeps :: "handler \<Rightarrow> bool" where
  "keeps h = (\<forall>rq s. well_formed s \<longrightarrow> well_formed (snd (h rq s)))"

text \<open>A handler answers: it never leaves a rejection that nobody handles.\<close>

definition answers :: "handler \<Rightarrow> bool" where
  "answers h = (\<forall>rq s e. fst (h rq s) \<noteq> Unhandled e)"

text \<open>The value that the inverse of the identifier generator reads off a string of
  hexadecimal digits.\<close>

definition digit_value :: "char \<Rightarrow> nat" where
  "digit_value c = length (takeWhile (\<lambda>d. d \<noteq> c) ''0123456789abcdef'')"

definition hex_value :: "string \<Rightarrow> nat" where
  "hex_value s = foldl (\<lambda>a c. 16 * a + digit_value c) 0 s"

section \<open>Example data\<close>

definition accept_all :: schema where
  "accept_all b = None"

text \<open>A schema that requires a campground with a title and a price, and reports every
  missing field.\<close>

definition require_campground :: schema where
  "require_campground b =
     (case body_campground b of
        None \<Rightarrow> Some \<lparr>details = [\<lparr>el_message = ''campground is required''\<rparr>]\<rparr>
      | Some f \<Rightarrow>
          (if map_of f ''title'' = None \<or> map_of f ''price'' = None
           then Some \<lparr>details =
                  (if map_of f ''title'' = None then [\<lparr>el_message = ''title is required''\<rparr>] else []) @
                  (if map_of f ''price'' = None then [\<lparr>el_message = ''price is required''\<rparr>] else [])\<rparr>
           else None))"

definition empty_store :: store where
  "empty_store = \<lparr>campground_docs = [], review_docs = [], next_id = 0, fault = None\<rparr>"

definition no_body :: body where
  "no_body = \<lparr>body_campground = None, body_review = None\<rparr>"

definition pine_ridge :: body where
  "pine_ridge =
     \<lparr>body_campground = Some [(''title'', ''Pine Ridge''), (''location'', ''CO''), (''price'', ''25'')],
      body_review = None\<rparr>"

definition lake_view :: body where
  "lake_view =
     \<lparr>body_campground = Some [(''title'', ''Lake View''), (''location'', ''MN''), (''price'', ''30'')],
      body_review = None\<rparr>"

definition no_title_no_price :: body where
  "no_title_no_price = \<lparr>body_campground = Some [(''location'', ''CO'')], body_review = None\<rparr>"

definition great :: body where
  "great = \<lparr>body_campground = None, body_review = Some [(''rating'', ''5''), (''body'', ''Great'')]\<rparr>"

definition noisy :: body where
  "noisy = \<lparr>body_campground = None, body_review = Some [(''rating'', ''1''), (''body'', ''Noisy'')]\<rparr>"

text \<open>The first five identifiers of the generator, an identifier that no document of the
  examples has, and a string that is no identifier.\<close>

definition id0 :: oid where "id0 = ''000000000000000000000000''"

definition id1 :: oid where "id1 = ''000000000000000000000001''"

definition id2 :: oid where "id2 = ''000000000000000000000002''"

definition id3 :: oid where "id3 = ''000000000000000000000003''"

definition id4 :: oid where "id4 = ''000000000000000000000004''"

definition id_absent :: oid where "id_absent = ''00000000000000000000002a''"

definition no_id :: string where "no_id = ''not-an-object-id''"

text \<open>Two campgrounds with one review each, as four requests to the empty store leave
  them.\<close>

definition pine_ridge_doc :: campground where
  "pine_ridge_doc =
     \<lparr>c_id = id0,
      c_fields = [(''title'', ''Pine Ridge''), (''location'', ''CO''), (''price'', ''25'')],
      reviews = [id2]\<rparr>"

definition lake_view_doc :: campground where
  "lake_view_doc =
     \<lparr>c_id = id1,
      c_fields = [(''title'', ''Lake View''), (''location'', ''MN''), (''price'', ''30'')],
      reviews = [id3]\<rparr>"

definition great_doc :: review where
  "great_doc = \<lparr>r_id = id2, r_fields = [(''rating'', ''5''), (''body'', ''Great'')]\<rparr>"

definition noisy_doc :: review where
  "noisy_doc = \<lparr>r_id = id3, r_fields = [(''rating'', ''1''), (''body'', ''Noisy'')]\<rparr>"

definition two_camps :: store where
  "two_camps =
     \<lparr>campground_docs = [pine_ridge_doc, lake_view_doc],
      review_docs = [great_doc, noisy_doc],
      next_id = 4, fault = None\<rparr>"

section \<open>Lemmas about identifiers\<close>

lemma index_nth:
  "distinct xs \<Longrightarrow> d < length xs \<Longrightarrow> length (takeWhile (\<lambda>x. x \<noteq> xs ! d) xs) = d"
proof (induction xs arbitrary: d)
  case Nil
  then show ?case by simp
next
  case (Cons x xs)
  show ?case
  proof (cases d)
    case 0
    then show ?thesis by simp
  next
    case (Suc d')
    with Cons.prems have "d' < length xs" and "xs ! d' \<in> set xs" and "x \<notin> set xs"
      by simp_all
    then have "x \<noteq> xs ! d'" by blast
    with Suc Cons.IH [of d'] Cons.prems show ?thesis by simp
  qed
qed

lemma digit_value_digit: "d < 16 \<Longrightarrow> digit_value (digit d) = d"
  unfolding digit_value_def digit_def by (rule index_nth) simp_all

lemma hex_value_snoc: "hex_value (s @ [c]) = 16 * hex_value s + digit_value c"
  by (simp add: hex_value_def)

lemma hex_value_hex: "hex_value (hex n) = n"
proof (induction n rule: hex.induct)
  case (1 n)
  show ?case
  proof (cases "n < 16")
    case True
    then show ?thesis
      by (subst hex.simps) (simp add: hex_value_def digit_value_digit)
  next
    case False
    with "1.IH" have "hex_value (hex (n div 16)) = n div 16" by simp
    with False show ?thesis
      by (subst hex.simps) (simp add: hex_value_snoc digit_value_digit)
  qed
qed

lemma hex_value_zeros: "hex_value (replicate k (CHR ''0'') @ s) = hex_value s"
proof -
  have "foldl (\<lambda>a c. 16 * a + digit_value c) 0 (replicate k (CHR ''0'')) = 0"
    by (induction k) (simp_all add: digit_value_def)
  then show ?thesis by (simp add: hex_value_def)
qed

lemma hex_value_objectId: "hex_value (objectId n) = n"
  by (simp add: objectId_def hex_value_zeros hex_value_hex)

lemma objectId_inj: "objectId m = objectId n \<longleftrightarrow> m = n"
  by (metis hex_value_objectId)

lemmas id_defs = id0_def id1_def id2_def id3_def id4_def id_absent_def no_id_def

lemma objectId_digits:
  "objectId 0 = id0" "objectId 1 = id1" "objectId 2 = id2" "objectId 3 = id3" "objectId 4 = id4"
  unfolding id_defs by code_simp+

lemma cast_examples:
  "castObjectId id0 = Some id0" "castObjectId id1 = Some id1" "castObjectId id2 = Some id2"
  "castObjectId id3 = Some id3" "castObjectId id4 = Some id4"
  "castObjectId id_absent = Some id_absent" "castObjectId no_id = None"
  unfolding id_defs by code_simp+

lemma cast_length: "castObjectId v = Some i \<Longrightarrow> length v = 24"
  by (simp add: castObjectId_def split: if_splits)

lemma cast_not_empty: "castObjectId v = Some i \<Longrightarrow> v \<noteq> []"
  by (auto dest: cast_length)

lemma same_word_refl [simp]: "same_word a a"
  by (simp add: same_word_def)



lemma strip_slash_two [simp]: "v \<noteq> [] \<Longrightarrow> strip_slash [a, v] = [a, v]"
  by (simp add: strip_slash_def)

lemma strip_slash_one [simp]: "v \<noteq> [] \<Longrightarrow> strip_slash [v] = [v]"
  by (simp add: strip_slash_def)

lemma strip_slash_four [simp]: "w \<noteq> [] \<Longrightarrow> strip_slash [a, v, b, w] = [a, v, b, w]"
  by (simp add: strip_slash_def)

lemma strip_slash_Nil [simp]: "strip_slash [] = []"
  by (simp add: strip_slash_def)

lemma below_prefix_id [simp]: "v \<noteq> [] \<Longrightarrow> below_prefix (v # rest) = v # rest"
  by (simp add: below_prefix_def)

lemma below_prefix_Nil [simp]: "below_prefix [] = []"
  by (simp add: below_prefix_def)

section \<open>Lemmas about the store\<close>

lemma by_id_Some: "by_id i docs = Some c \<Longrightarrow> c \<in> set docs \<and> c_id c = i"
  unfolding by_id_def by (induction docs) (auto split: if_splits)

lemma by_id_None: "by_id i docs = None \<longleftrightarrow> i \<notin> c_id ` set docs"
  unfolding by_id_def by (induction docs) auto

lemma review_by_id_None: "review_by_id i docs = None \<longleftrightarrow> i \<notin> r_id ` set docs"
  unfolding review_by_id_def by (induction docs) auto

lemma by_id_filter_out: "by_id i (filter (\<lambda>c. c_id c \<noteq> i) docs) = None"
  by (auto simp: by_id_None)

lemma filter_absent: "by_id i docs = None \<Longrightarrow> filter (\<lambda>c. c_id c \<noteq> i) docs = docs"
  by (auto simp: by_id_None filter_id_conv)


lemma by_id_map_update:
  "(\<And>c. c_id (f c) = c_id c) \<Longrightarrow>
   by_id i (map (\<lambda>c. if c_id c = j then f c else c) docs)
     = map_option (\<lambda>c. if c_id c = j then f c else c) (by_id i docs)"
  unfolding by_id_def by (induction docs) auto

lemma c_id_apply_update [simp]: "c_id (apply_update u c) = c_id c"
  by (simp add: apply_update_def split: update.splits)

lemma by_id_put: "by_id (c_id d) (put_campground d docs) = Some d"
proof (cases "by_id (c_id d) docs")
  case None
  then show ?thesis
    unfolding put_campground_def by_id_def by (induction docs) (auto split: if_splits)
next
  case (Some c)
  then show ?thesis
    unfolding put_campground_def by_id_def by (induction docs) (auto split: if_splits)
qed

lemma review_by_id_put: "review_by_id (r_id d) (put_review d docs) = Some d"
proof (cases "review_by_id (r_id d) docs")
  case None
  then show ?thesis
    unfolding put_review_def review_by_id_def by (induction docs) (auto split: if_splits)
next
  case (Some c)
  then show ?thesis
    unfolding put_review_def review_by_id_def by (induction docs) (auto split: if_splits)
qed

lemma length_removeAll_count: "length (removeAll x xs) + count_list xs x = length xs"
  by (induction xs) auto

section \<open>Routing lemmas\<close>

lemmas app_defs = single_app_def router_app_def dispatch_def single_layers_def single_routes_def
  router_layers_def campgrounds_router_def reviews_router_def handles_method_def match_path_def

lemma post_campgrounds_route:
  "single_app cs rs \<lparr>req_method = POST, req_path = [''campgrounds''], body = b\<rparr> s =
     serve (validated (validateCampground cs) (catchAsync create_campground)) Map.empty
       \<lparr>req_method = POST, req_path = [''campgrounds''], body = b\<rparr> s"
  "router_app cs rs \<lparr>req_method = POST, req_path = [''campgrounds''], body = b\<rparr> s =
     serve (validated (validateCampground cs) (catchAsync create_campground)) Map.empty
       \<lparr>req_method = POST, req_path = [''campgrounds''], body = b\<rparr> s"
  by (simp_all add: app_defs)

lemma put_campground_route:
  "i \<noteq> [] \<Longrightarrow>
   single_app cs rs \<lparr>req_method = PUT, req_path = [''campgrounds'', i], body = b\<rparr> s =
     serve (validated (validateCampground cs) (catchAsync update_campground)) [''id'' \<mapsto> i]
       \<lparr>req_method = PUT, req_path = [''campgrounds'', i], body = b\<rparr> s"
  "i \<noteq> [] \<Longrightarrow>
   router_app cs rs \<lparr>req_method = PUT, req_path = [''campgrounds'', i], body = b\<rparr> s =
     serve (validated (validateCampground cs) (catchAsync update_campground)) [''id'' \<mapsto> i]
       \<lparr>req_method = PUT, req_path = [''campgrounds'', i], body = b\<rparr> s"
  by (simp_all add: app_defs)

lemma post_review_route:
  "i \<noteq> [] \<Longrightarrow>
   single_app cs rs \<lparr>req_method = POST, req_path = [''campgrounds'', i, ''reviews''], body = b\<rparr> s =
     serve (validated (validateReview rs) (catchAsync create_review)) [''id'' \<mapsto> i]
       \<lparr>req_method = POST, req_path = [''campgrounds'', i, ''reviews''], body = b\<rparr> s"
  "i \<noteq> [] \<Longrightarrow>
   router_app cs rs \<lparr>req_method = POST, req_path = [''campgrounds'', i, ''reviews''], body = b\<rparr> s =
     serve (validated (validateReview rs) (catchAsync create_review_flash)) [''id'' \<mapsto> i]
       \<lparr>req_method = POST, req_path = [''campgrounds'', i, ''reviews''], body = b\<rparr> s"
  by (simp_all add: app_defs strip_slash_def)

lemma campground_route:
  "i \<noteq> [] \<Longrightarrow>
   single_app cs rs \<lparr>req_method = DELETE, req_path = [''campgrounds'', i], body = b\<rparr> s =
     serve (catchAsync delete_campground) [''id'' \<mapsto> i]
       \<lparr>req_method = DELETE, req_path = [''campgrounds'', i], body = b\<rparr> s"
  "i \<noteq> [] \<Longrightarrow>
   router_app cs rs \<lparr>req_method = DELETE, req_path = [''campgrounds'', i], body = b\<rparr> s =
     serve (catchAsync delete_campground) [''id'' \<mapsto> i]
       \<lparr>req_method = DELETE, req_path = [''campgrounds'', i], body = b\<rparr> s"
  "i \<noteq> [] \<Longrightarrow> \<not> same_word ''new'' i \<Longrightarrow>
   single_app cs rs \<lparr>req_method = GET, req_path = [''campgrounds'', i], body = b\<rparr> s =
     serve (catchAsync show_campground) [''id'' \<mapsto> i]
       \<lparr>req_method = GET, req_path = [''campgrounds'', i], body = b\<rparr> s"
  "i \<noteq> [] \<Longrightarrow> \<not> same_word ''new'' i \<Longrightarrow>
   router_app cs rs \<lparr>req_method = GET, req_path = [''campgrounds'', i], body = b\<rparr> s =
     serve (catchAsync show_campground) [''id'' \<mapsto> i]
       \<lparr>req_method = GET, req_path = [''campgrounds'', i], body = b\<rparr> s"
  by (simp_all add: app_defs)

lemma delete_review_route:
  "i \<noteq> [] \<Longrightarrow> rid \<noteq> [] \<Longrightarrow>
   single_app cs rs \<lparr>req_method = DELETE, req_path = [''campgrounds'', i, ''reviews'', rid], body = b\<rparr> s =
     serve (catchAsync delete_review) [''reviewId'' \<mapsto> rid, ''id'' \<mapsto> i]
       \<lparr>req_method = DELETE, req_path = [''campgrounds'', i, ''reviews'', rid], body = b\<rparr> s"
  "i \<noteq> [] \<Longrightarrow> rid \<noteq> [] \<Longrightarrow>
   router_app cs rs \<lparr>req_method = DELETE, req_path = [''campgrounds'', i, ''reviews'', rid], body = b\<rparr> s =
     serve (catchAsync delete_review) [''id'' \<mapsto> i, ''reviewId'' \<mapsto> rid]
       \<lparr>req_method = DELETE, req_path = [''campgrounds'', i, ''reviews'', rid], body = b\<rparr> s"
  by (simp_all add: app_defs strip_slash_def)

lemma serve_invalid:
  "validate (body r) = Inl e \<Longrightarrow> req_method r \<noteq> HEAD \<Longrightarrow>
   serve (validated validate h) ps r s = (Sent (error_handler e), s)"
  by (simp add: serve_def validated_def finish_def send_def request.defs)

lemma serve_valid:
  "validate (body r) = Inr u \<Longrightarrow> serve (validated validate h) ps r s = serve h ps r s"
  by (simp add: serve_def validated_def request.defs)

section \<open>What each handler does when the store answers\<close>

lemmas serve_defs = serve_def send_def finish_def catchAsync_def await_def respond_def
  the_param_def with_id_def request.defs

lemma serve_create:
  assumes "fault s = None" "by_id (objectId (next_id s)) (campground_docs s) = None"
    and "req_method r \<noteq> HEAD"
  shows "serve (catchAsync create_campground) ps r s =
     (Sent \<lparr>status = 302, content = Location (''/campgrounds/'' @ objectId (next_id s))\<rparr>,
      s\<lparr>campground_docs := campground_docs s @
           [\<lparr>c_id = objectId (next_id s), c_fields = the_fields (body_campground (body r)), reviews = []\<rparr>],
        next_id := Suc (next_id s)\<rparr>)"
  using assms
  by (simp add: serve_defs create_campground_def new_Campground_def Campground_save_def
      redirect_def put_campground_def)

lemma serve_delete:
  assumes "fault s = None" "ps ''id'' = Some v" "castObjectId v = Some i"
    and "req_method r \<noteq> HEAD"
  shows "serve (catchAsync delete_campground) ps r s =
     (Sent \<lparr>status = 302, content = Location ''/campgrounds''\<rparr>,
      case by_id i (campground_docs s) of
        None \<Rightarrow> s
      | Some doc \<Rightarrow> s\<lparr>campground_docs := filter (\<lambda>c. c_id c \<noteq> i) (campground_docs s),
                      review_docs := filter (\<lambda>r. r_id r \<notin> set (reviews doc)) (review_docs s)\<rparr>)"
  using assms
  by (simp add: serve_defs delete_campground_def Campground_findByIdAndDelete_def redirect_def
      delete_owned_reviews_def split: option.splits)

lemma serve_delete_no_id:
  assumes "ps ''id'' = Some v" "castObjectId v = None" and "req_method r \<noteq> HEAD"
  shows "serve (catchAsync delete_campground) ps r s =
     (Sent \<lparr>status = 500, content = View ''error'' (LErr (CastError v))\<rparr>, s)"
  using assms
  by (simp add: serve_defs delete_campground_def Campground_findByIdAndDelete_def
      error_handler_def no_message_def CastError_def)

lemma serve_delete_review:
  assumes "fault s = None" "ps ''id'' = Some v" "ps ''reviewId'' = Some w"
    and "castObjectId v = Some i" "castObjectId w = Some rid" and "req_method r \<noteq> HEAD"
  shows "serve (catchAsync delete_review) ps r s =
     (Sent \<lparr>status = 302, content = Location (''/campgrounds/'' @ v)\<rparr>,
      s\<lparr>campground_docs :=
          map (\<lambda>c. if c_id c = i then c\<lparr>reviews := removeAll rid (reviews c)\<rparr> else c) (campground_docs s),
        review_docs := filter (\<lambda>r. r_id r \<noteq> rid) (review_docs s)\<rparr>)"
  using assms
  by (simp add: serve_defs delete_review_def Campground_findByIdAndUpdate_def cast_update_def
      Review_findByIdAndDelete_def redirect_def apply_update_def)




lemma serve_create_review_flash:
  assumes "fault s = None" "ps ''id'' = Some v" "castObjectId v = Some i"
    and "by_id i (campground_docs s) = Some c" and "req_method r \<noteq> HEAD"
  shows "serve (catchAsync create_review_flash) ps r s =
     (Sent \<lparr>status = 500,
            content = View ''error'' (LErr (TypeError ''req.flash is not a function''))\<rparr>,
      s\<lparr>next_id := Suc (next_id s),
        review_docs :=
          put_review \<lparr>r_id = objectId (next_id s), r_fields = the_fields (body_review (body r))\<rparr>
            (review_docs s),
        campground_docs :=
          put_campground (c\<lparr>reviews := reviews c @ [objectId (next_id s)]\<rparr>) (campground_docs s)\<rparr>)"
  using assms
  by (simp add: serve_defs create_review_flash_def Campground_findById_def new_Review_def
      Review_save_def Campground_save_def error_handler_def no_message_def TypeError_def)

lemma serve_create_review:
  assumes "fault s = None" "ps ''id'' = Some v" "castObjectId v = Some i"
    and "by_id i (campground_docs s) = Some c" and "req_method r \<noteq> HEAD"
  shows "serve (catchAsync create_review) ps r s =
     (Sent \<lparr>status = 302, content = Location (''/campgrounds/'' @ i)\<rparr>,
      s\<lparr>next_id := Suc (next_id s),
        review_docs :=
          put_review \<lparr>r_id = objectId (next_id s), r_fields = the_fields (body_review (body r))\<rparr>
            (review_docs s),
        campground_docs :=
          put_campground (c\<lparr>reviews := reviews c @ [objectId (next_id s)]\<rparr>) (campground_docs s)\<rparr>)"
  using assms by_id_Some [OF assms(4)]
  by (simp add: serve_defs create_review_def Campground_findById_def new_Review_def
      Review_save_def Campground_save_def redirect_def)

lemma referential_after_delete:
  assumes ref: "referential s" and ex: "exclusive s"
    and c: "by_id i (campground_docs s) = Some c"
  shows "referential (s\<lparr>campground_docs := filter (\<lambda>d. c_id d \<noteq> i) (campground_docs s),
                         review_docs := filter (\<lambda>r. r_id r \<notin> set (reviews c)) (review_docs s)\<rparr>)"
proof -
  from by_id_Some [OF c] have cin: "c \<in> set (campground_docs s)" and cid: "c_id c = i"
    by simp_all
  {
    fix d rid
    assume d: "d \<in> set (campground_docs s)" and di: "c_id d \<noteq> i" and rid: "rid \<in> set (reviews d)"
    from ref d rid have "rid \<in> r_id ` set (review_docs s)"
      by (auto simp: referential_def review_by_id_None)
    moreover from ex d cin di cid have "set (reviews d) \<inter> set (reviews c) = {}"
      unfolding exclusive_def by blast
    with rid have "rid \<notin> set (reviews c)" by blast
    ultimately have "rid \<in> r_id ` set (filter (\<lambda>r. r_id r \<notin> set (reviews c)) (review_docs s))"
      by auto
  }
  then show ?thesis
    by (auto simp: referential_def review_by_id_None)
qed

section \<open>Well-formed stores\<close>

text \<open>
  The empty store is well formed and every request to either application leaves a
  well-formed store well formed; in a well-formed store the identifier that the generator
  hands out next is in use nowhere.
\<close>

lemma not_known_next: "\<not> known s (objectId (next_id s))"
  by (simp add: known_def objectId_inj)

lemma known_Suc: "known s x \<Longrightarrow> known (s\<lparr>next_id := Suc (next_id s)\<rparr>) x"
  by (auto simp: known_def intro: less_SucI)

lemma known_next_Suc: "known (s\<lparr>next_id := Suc (next_id s)\<rparr>) (objectId (next_id s))"
  by (auto simp: known_def)

lemma known_cong [simp]:
  "known (s\<lparr>campground_docs := cd\<rparr>) x = known s x"
  "known (s\<lparr>review_docs := rd\<rparr>) x = known s x"
  "known (s\<lparr>fault := f\<rparr>) x = known s x"
  by (simp_all add: known_def)

lemma fresh_campground_id:
  "well_formed s \<Longrightarrow> by_id (objectId (next_id s)) (campground_docs s) = None"
  using not_known_next [of s] by (auto simp: well_formed_def by_id_None)

lemma fresh_review_id:
  "well_formed s \<Longrightarrow> review_by_id (objectId (next_id s)) (review_docs s) = None"
  using not_known_next [of s] by (auto simp: well_formed_def review_by_id_None)

lemma wf_create_campground:
  assumes "well_formed s"
  shows "well_formed (snd (create_campground rq s))"
proof (cases "fault s")
  case (Some e)
  with assms show ?thesis
    by (auto simp: create_campground_def new_Campground_def await_def Campground_save_def
        well_formed_def exclusive_def intro: known_Suc)
next
  case None
  have fr: "by_id (objectId (next_id s)) (campground_docs s) = None"
    using assms by (rule fresh_campground_id)
  then have nin: "objectId (next_id s) \<notin> c_id ` set (campground_docs s)"
    by (simp add: by_id_None)
  from None fr have st: "snd (create_campground rq s) =
      s\<lparr>next_id := Suc (next_id s),
        campground_docs := campground_docs s @
          [\<lparr>c_id = objectId (next_id s), c_fields = the_fields (body_campground (body rq)),
            reviews = []\<rparr>]\<rparr>"
    by (simp add: create_campground_def new_Campground_def await_def Campground_save_def
        respond_def put_campground_def)
  show ?thesis
    unfolding st using assms nin
    by (auto simp: well_formed_def exclusive_def known_next_Suc intro: known_Suc)
qed


lemma wf_fault [simp]: "well_formed (s\<lparr>fault := f\<rparr>) = well_formed s"
  by (simp add: well_formed_def exclusive_def)

lemma wf_Suc: "well_formed s \<Longrightarrow> well_formed (s\<lparr>next_id := Suc (next_id s)\<rparr>)"
  by (auto simp: well_formed_def exclusive_def intro: known_Suc)

lemma wf_filter:
  assumes "well_formed s"
  shows "well_formed (s\<lparr>campground_docs := filter P (campground_docs s),
                        review_docs := filter Q (review_docs s)\<rparr>)"
  using assms by (auto simp: well_formed_def exclusive_def distinct_map_filter)

lemma wf_filter_reviews:
  assumes "well_formed s"
  shows "well_formed (s\<lparr>review_docs := filter Q (review_docs s)\<rparr>)"
  using assms by (auto simp: well_formed_def exclusive_def distinct_map_filter)

lemma map_c_id_update:
  "(\<And>c. c_id (f c) = c_id c) \<Longrightarrow>
   map c_id (map (\<lambda>c. if c_id c = i then f c else c) docs) = map c_id docs"
  by (induction docs) auto

lemma wf_map:
  assumes wf: "well_formed s"
    and id: "\<And>c. c_id (f c) = c_id c"
    and sub: "\<And>c. set (reviews (f c)) \<subseteq> set (reviews c)"
  shows "well_formed (s\<lparr>campground_docs := map (\<lambda>c. if c_id c = i then f c else c) (campground_docs s)\<rparr>)"
proof -
  let ?g = "\<lambda>c. if c_id c = i then f c else c"
  have g_id: "\<And>c. c_id (?g c) = c_id c" using id by simp
  have g_sub: "\<And>c. set (reviews (?g c)) \<subseteq> set (reviews c)" using sub by simp
  have m: "map c_id (map ?g (campground_docs s)) = map c_id (campground_docs s)"
    by (rule map_c_id_update) (rule id)
  have d: "distinct (map c_id (map ?g (campground_docs s)))"
    unfolding m using wf by (simp add: well_formed_def)
  have k: "\<forall>c \<in> set (map ?g (campground_docs s)).
             known s (c_id c) \<and> (\<forall>rid \<in> set (reviews c). known s rid)"
  proof
    fix c' assume "c' \<in> set (map ?g (campground_docs s))"
    then obtain c where c: "c \<in> set (campground_docs s)" and c': "c' = ?g c" by auto
    from wf c have "known s (c_id c)" and "\<forall>rid \<in> set (reviews c). known s rid"
      by (auto simp: well_formed_def)
    with g_id [of c] g_sub [of c] c'
    show "known s (c_id c') \<and> (\<forall>rid \<in> set (reviews c'). known s rid)" by auto
  qed
  have e: "exclusive (s\<lparr>campground_docs := map ?g (campground_docs s)\<rparr>)"
    unfolding exclusive_def
  proof (intro ballI impI)
    fix a' b'
    assume "a' \<in> set (campground_docs (s\<lparr>campground_docs := map ?g (campground_docs s)\<rparr>))"
      and "b' \<in> set (campground_docs (s\<lparr>campground_docs := map ?g (campground_docs s)\<rparr>))"
      and ne: "c_id a' \<noteq> c_id b'"
    then obtain a b where a: "a \<in> set (campground_docs s)" "a' = ?g a"
      and b: "b \<in> set (campground_docs s)" "b' = ?g b" by auto
    from ne a b g_id [of a] g_id [of b] have "c_id a \<noteq> c_id b" by simp
    with wf a b have "set (reviews a) \<inter> set (reviews b) = {}"
      unfolding well_formed_def exclusive_def by blast
    with g_sub [of a] g_sub [of b] a b
    show "set (reviews a') \<inter> set (reviews b') = {}" by blast
  qed
  from wf d k e show ?thesis by (simp add: well_formed_def)
qed

lemma wf_index: "snd (index_campgrounds rq s) = s"
  by (simp add: index_campgrounds_def await_def Campground_find_def respond_def
      split: option.splits)

lemma wf_show: "snd (show_campground rq s) = s"
  by (simp add: show_campground_def await_def Campground_findById_populate_def respond_def
      with_id_def split: option.splits)

lemma wf_edit: "snd (edit_form rq s) = s"
  by (simp add: edit_form_def await_def Campground_findById_def respond_def with_id_def
      split: option.splits)

lemma wf_findByIdAndUpdate:
  assumes "well_formed s"
  shows "well_formed (snd (Campground_findByIdAndUpdate v u s))"
proof (cases "castObjectId v")
  case None
  with assms show ?thesis by (simp add: Campground_findByIdAndUpdate_def)
next
  case (Some i)
  show ?thesis
  proof (cases "cast_update u")
    case (Inl e)
    with Some assms show ?thesis by (simp add: Campground_findByIdAndUpdate_def)
  next
    case (Inr u')
    show ?thesis
    proof (cases "fault s")
      case f: (Some e)
      with Some Inr assms show ?thesis by (simp add: Campground_findByIdAndUpdate_def)
    next
      case None
      have "well_formed (s\<lparr>campground_docs :=
              map (\<lambda>c. if c_id c = i then apply_update u' c else c) (campground_docs s)\<rparr>)"
        using assms by (rule wf_map) (simp_all add: apply_update_def split: update.splits)
      with Some Inr None show ?thesis by (simp add: Campground_findByIdAndUpdate_def)
    qed
  qed
qed

lemma wf_update_campground:
  assumes "well_formed s"
  shows "well_formed (snd (update_campground rq s))"
proof -
  let ?op = "Campground_findByIdAndUpdate (the_param rq ''id'')
               (SetFields (the_fields (body_campground (body rq))))"
  have "snd (update_campground rq s) = snd (?op s)"
    by (simp add: update_campground_def await_def respond_def Let_def
        split: prod.splits sum.splits option.splits)
  with wf_findByIdAndUpdate [OF assms] show ?thesis by simp
qed

lemma wf_delete_campground:
  assumes "well_formed s"
  shows "well_formed (snd (delete_campground rq s))"
  using assms wf_filter [OF assms]
  by (simp add: delete_campground_def await_def Campground_findByIdAndDelete_def respond_def
      with_id_def delete_owned_reviews_def Let_def split: option.splits)

lemma wf_Review_findByIdAndDelete:
  assumes "well_formed s"
  shows "well_formed (snd (Review_findByIdAndDelete v s))"
  using assms wf_filter_reviews [OF assms]
  by (simp add: Review_findByIdAndDelete_def with_id_def split: option.splits)

lemma wf_delete_review:
  assumes "well_formed s"
  shows "well_formed (snd (delete_review rq s))"
proof -
  let ?op = "Campground_findByIdAndUpdate (the_param rq ''id'')
               (Pull_reviews (the_param rq ''reviewId''))"
  obtain x s1 where 1: "?op s = (x, s1)" by (cases "?op s")
  with wf_findByIdAndUpdate [OF assms, of "the_param rq ''id''"
      "Pull_reviews (the_param rq ''reviewId'')"]
  have wf1: "well_formed s1" by simp
  show ?thesis
  proof (cases x)
    case (Inl e)
    with 1 wf1 show ?thesis by (simp add: delete_review_def await_def Let_def)
  next
    case (Inr c)
    with 1 have "snd (delete_review rq s)
        = snd (Review_findByIdAndDelete (the_param rq ''reviewId'') s1)"
      by (simp add: delete_review_def await_def respond_def Let_def
          split: prod.splits sum.splits)
    with wf_Review_findByIdAndDelete [OF wf1] show ?thesis by simp
  qed
qed

lemma stored_unique:
  assumes "distinct (map c_id docs)" and "by_id i docs = Some c"
    and "x \<in> set docs" and "c_id x = i"
  shows "x = c"
proof -
  from by_id_Some [OF assms(2)] have "c \<in> set docs" and "c_id c = i" by simp_all
  with assms(1,3,4) show ?thesis
    by (auto simp: distinct_map dest: inj_onD)
qed

lemma put_campground_stored:
  assumes "distinct (map c_id docs)" and "by_id i docs = Some c"
  shows "put_campground (c\<lparr>reviews := reviews c @ [n]\<rparr>) docs
           = map (\<lambda>x. if c_id x = i then x\<lparr>reviews := reviews x @ [n]\<rparr> else x) docs"
proof -
  from by_id_Some [OF assms(2)] have ci: "c_id c = i" by simp
  have "map (\<lambda>x. if c_id x = i then c\<lparr>reviews := reviews c @ [n]\<rparr> else x) docs
          = map (\<lambda>x. if c_id x = i then x\<lparr>reviews := reviews x @ [n]\<rparr> else x) docs"
    by (rule map_cong) (auto dest: stored_unique [OF assms])
  with assms(2) ci show ?thesis by (simp add: put_campground_def)
qed

lemma wf_add_review:
  assumes wf: "well_formed s"
  shows "well_formed
           (s\<lparr>next_id := Suc (next_id s),
              review_docs := review_docs s @ [\<lparr>r_id = objectId (next_id s), r_fields = fs\<rparr>],
              campground_docs :=
                map (\<lambda>x. if c_id x = i then x\<lparr>reviews := reviews x @ [objectId (next_id s)]\<rparr> else x)
                  (campground_docs s)\<rparr>)"
    (is "well_formed ?s'")
proof -
  let ?n = "objectId (next_id s)"
  let ?g = "\<lambda>x. if c_id x = i then x\<lparr>reviews := reviews x @ [?n]\<rparr> else x"
  have kn: "\<And>x. known s x \<Longrightarrow> known ?s' x"
    by (auto simp: known_def intro: less_SucI)
  have kn_new: "known ?s' ?n" by (auto simp: known_def)
  have old: "\<And>c. c \<in> set (campground_docs s) \<Longrightarrow> ?n \<notin> set (reviews c)"
    using wf not_known_next [of s] by (auto simp: well_formed_def)
  have m: "map c_id (map ?g (campground_docs s)) = map c_id (campground_docs s)"
    by (rule map_c_id_update) simp
  have 1: "\<forall>c \<in> set (campground_docs ?s'). known ?s' (c_id c) \<and> (\<forall>rid \<in> set (reviews c). known ?s' rid)"
    using wf kn kn_new by (auto simp: well_formed_def)
  have 2: "\<forall>r \<in> set (review_docs ?s'). known ?s' (r_id r)"
    using wf kn kn_new by (auto simp: well_formed_def)
  have 3: "distinct (map c_id (campground_docs ?s'))"
    using wf m by (simp add: well_formed_def del: map_map)
  have 4: "distinct (map r_id (review_docs ?s'))"
    using wf fresh_review_id [OF wf] by (simp add: well_formed_def review_by_id_None)
  have 5: "exclusive ?s'"
    unfolding exclusive_def
  proof (intro ballI impI)
    fix a' b'
    assume "a' \<in> set (campground_docs ?s')" and "b' \<in> set (campground_docs ?s')"
      and ne: "c_id a' \<noteq> c_id b'"
    then obtain a b where a: "a \<in> set (campground_docs s)" "a' = ?g a"
      and b: "b \<in> set (campground_docs s)" "b' = ?g b" by auto
    from ne a b have ne': "c_id a \<noteq> c_id b" by (auto split: if_splits)
    with wf a b have dj: "set (reviews a) \<inter> set (reviews b) = {}"
      unfolding well_formed_def exclusive_def by blast
    from old a b have "?n \<notin> set (reviews a)" "?n \<notin> set (reviews b)" by simp_all
    with dj ne' a b show "set (reviews a') \<inter> set (reviews b') = {}"
      by (auto split: if_splits)
  qed
  from 1 2 3 4 5 show ?thesis unfolding well_formed_def by blast
qed

lemma wf_create_review:
  assumes wf: "well_formed s"
  shows "well_formed (snd (create_review rq s))"
proof (cases "castObjectId (the_param rq ''id'')")
  case None
  with wf show ?thesis
    by (simp add: create_review_def await_def Campground_findById_def with_id_def)
next
  case cast: (Some i)
  show ?thesis
  proof (cases "fault s")
    case (Some e)
    with cast wf show ?thesis
      by (simp add: create_review_def await_def Campground_findById_def with_id_def)
  next
    case None
    show ?thesis
    proof (cases "by_id i (campground_docs s)")
      case no: None
      with None cast have "snd (create_review rq s) = s\<lparr>next_id := Suc (next_id s)\<rparr>"
        by (simp add: create_review_def await_def Campground_findById_def with_id_def
            new_Review_def)
      with wf_Suc [OF wf] show ?thesis by simp
    next
      case (Some c)
      from wf have d: "distinct (map c_id (campground_docs s))" by (simp add: well_formed_def)
      from None Some cast have "snd (create_review rq s) =
          s\<lparr>next_id := Suc (next_id s),
            review_docs := put_review \<lparr>r_id = objectId (next_id s),
                                        r_fields = the_fields (body_review (body rq))\<rparr> (review_docs s),
            campground_docs := put_campground (c\<lparr>reviews := reviews c @ [objectId (next_id s)]\<rparr>)
                                 (campground_docs s)\<rparr>"
        by (simp add: create_review_def await_def Campground_findById_def with_id_def
            new_Review_def Review_save_def Campground_save_def respond_def)
      also have "\<dots> =
          s\<lparr>next_id := Suc (next_id s),
            review_docs := review_docs s @ [\<lparr>r_id = objectId (next_id s),
                                             r_fields = the_fields (body_review (body rq))\<rparr>],
            campground_docs :=
              map (\<lambda>x. if c_id x = i
                        then x\<lparr>reviews := reviews x @ [objectId (next_id s)]\<rparr> else x)
                (campground_docs s)\<rparr>"
        using fresh_review_id [OF wf] put_campground_stored [OF d Some]
        by (simp add: put_review_def)
      finally show ?thesis using wf_add_review [OF wf] by simp
    qed
  qed
qed

lemma create_review_flash_state: "snd (create_review_flash rq s) = snd (create_review rq s)"
  by (simp add: create_review_flash_def create_review_def await_def Campground_findById_def
      with_id_def new_Review_def Review_save_def Campground_save_def respond_def Let_def
      split: option.splits)

lemma wf_create_review_flash:
  "well_formed s \<Longrightarrow> well_formed (snd (create_review_flash rq s))"
  by (simp add: create_review_flash_state wf_create_review)

lemma keeps_catchAsync:
  "(\<And>rq s. well_formed s \<Longrightarrow> well_formed (snd (fn rq s))) \<Longrightarrow> keeps (catchAsync fn)"
  unfolding keeps_def catchAsync_def
  by (auto split: prod.splits sum.splits) (metis snd_conv)+

lemma keeps_bare_async:
  "(\<And>rq s. well_formed s \<Longrightarrow> well_formed (snd (fn rq s))) \<Longrightarrow> keeps (bare_async fn)"
  unfolding keeps_def bare_async_def
  by (auto split: prod.splits sum.splits) (metis snd_conv)+

lemma keeps_sync: "keeps (sync fn)"
  unfolding keeps_def sync_def by (auto split: sum.splits)

lemma keeps_validated: "keeps h \<Longrightarrow> keeps (validated v h)"
  unfolding keeps_def validated_def by (auto split: sum.splits)

lemma keeps_page_not_found: "keeps page_not_found"
  unfolding keeps_def page_not_found_def by simp

lemma first_match_route:
  "first_match routes requested path = Some (h, ps) \<Longrightarrow>
   \<exists>m p. Route m p h \<in> set routes \<and> handles_method m requested \<and> match_path p path = Some ps"
proof (induction routes)
  case Nil
  then show ?case by simp
next
  case (Cons rt routes)
  obtain m p h' where rt: "rt = Route m p h'" by (cases rt)
  with Cons show ?case
    by (auto split: if_splits option.splits)
qed

lemma route_handler_in: "Route m p h \<in> set routes \<Longrightarrow> h \<in> route_handler ` set routes"
  by force

lemma find_layer_handler:
  "find_layer layers r = Handler h ps \<Longrightarrow> h \<in> set (handlers layers)"
proof (induction layers)
  case Nil
  then show ?case by simp
next
  case (Cons l layers)
  show ?case
  proof (cases l)
    case (Direct rt)
    obtain m p h' where rt: "rt = Route m p h'" by (cases rt)
    with Direct Cons show ?thesis
      by (auto simp: handlers_def split: if_splits option.splits)
  next
    case (Mounted prefix merge routes)
    show ?thesis
    proof (cases "match_prefix prefix (req_path r)")
      case None
      with Mounted Cons show ?thesis by (auto simp: handlers_def)
    next
      case (Some pr)
      obtain parent rest where pr: "pr = (parent, rest)" by (cases pr)
      show ?thesis
      proof (cases "first_match routes (req_method r) (below_prefix rest)")
        case None
        with Mounted Some pr Cons show ?thesis
          by (auto simp: handlers_def split: if_splits)
      next
        case fm: (Some hp)
        obtain h' ps' where hp: "hp = (h', ps')" by (cases hp)
        with fm first_match_route obtain m p where "Route m p h' \<in> set routes" by blast
        then have "h' \<in> route_handler ` set routes" by (rule route_handler_in)
        moreover from Mounted Some pr fm hp Cons.prems have "h = h'" by simp
        ultimately show ?thesis using Mounted by (simp add: handlers_def)
      qed
    qed
  qed
qed

lemma dispatch_keeps:
  assumes all: "\<And>h. h \<in> set (handlers layers) \<Longrightarrow> keeps h"
    and wf: "well_formed s"
  shows "well_formed (snd (dispatch layers r s))"
proof (cases "find_layer layers r")
  case (Handler h ps)
  then have "h \<in> set (handlers layers)" by (rule find_layer_handler)
  with all have "keeps h" by blast
  with wf have "well_formed (snd (h (request.extend r \<lparr>params = ps, flash = None\<rparr>) s))"
    by (simp add: keeps_def)
  with Handler show ?thesis
    by (auto simp: dispatch_def serve_def split: prod.splits)
next
  case (Options ms)
  with wf show ?thesis by (simp add: dispatch_def)
next
  case Nothing
  with wf show ?thesis
    by (simp add: dispatch_def serve_def page_not_found_def)
qed

lemmas keeps_handlers =
  keeps_catchAsync [of index_campgrounds] keeps_bare_async [of index_campgrounds]
  keeps_catchAsync [of show_campground] keeps_catchAsync [of edit_form]
  keeps_catchAsync [OF wf_create_campground] keeps_catchAsync [OF wf_update_campground]
  keeps_catchAsync [OF wf_delete_campground] keeps_catchAsync [OF wf_delete_review]
  keeps_catchAsync [OF wf_create_review] keeps_catchAsync [OF wf_create_review_flash]

lemma single_handlers_keep:
  "h \<in> set (handlers (single_layers cs rs)) \<Longrightarrow> keeps h"
  by (auto simp: handlers_def single_layers_def single_routes_def keeps_sync keeps_validated
      keeps_handlers wf_index wf_show wf_edit)

lemma router_handlers_keep:
  "h \<in> set (handlers (router_layers cs rs)) \<Longrightarrow> keeps h"
  by (auto simp: handlers_def router_layers_def campgrounds_router_def reviews_router_def
      keeps_sync keeps_validated keeps_handlers wf_index wf_show wf_edit)

theorem apps_keep_well_formed:
  assumes "well_formed s"
  shows "well_formed (snd (single_app cs rs r s)) \<and> well_formed (snd (router_app cs rs r s))"
  using assms
  by (simp add: single_app_def router_app_def dispatch_keeps single_handlers_keep
      router_handlers_keep)

lemma well_formed_empty: "well_formed empty_store"
  by (simp add: well_formed_def empty_store_def exclusive_def)

lemmas example_defs = two_camps_def pine_ridge_doc_def lake_view_doc_def great_doc_def noisy_doc_def

text \<open>The example store is what the single-file application makes of the empty store
  when two campgrounds are created and each gets a review.\<close>

lemma two_camps_reached:
  "snd (single_app require_campground accept_all
          \<lparr>req_method = POST, req_path = [''campgrounds'', id1, ''reviews''], body = noisy\<rparr>
       (snd (single_app require_campground accept_all
          \<lparr>req_method = POST, req_path = [''campgrounds'', id0, ''reviews''], body = great\<rparr>
       (snd (single_app require_campground accept_all
          \<lparr>req_method = POST, req_path = [''campgrounds''], body = lake_view\<rparr>
       (snd (single_app require_campground accept_all
          \<lparr>req_method = POST, req_path = [''campgrounds''], body = pine_ridge\<rparr>
          empty_store))))))) = two_camps"
  by code_simp

lemma well_formed_two_camps: "well_formed two_camps"
  using apps_keep_well_formed [THEN conjunct1] well_formed_empty two_camps_reached
  by metis

section \<open>Requests that no route takes\<close>

lemma first_match_None:
  "(first_match routes requested path = None)
     = (\<not> list_ex (\<lambda>rt. route_matches rt requested path) routes)"
proof (induction routes)
  case Nil
  show ?case by simp
next
  case (Cons rt routes)
  obtain m p h where "rt = Route m p h" by (cases rt)
  with Cons show ?case by (auto split: option.splits)
qed

lemma find_layer_direct:
  "find_layer (map Direct routes) r =
     (case first_match routes (req_method r) (req_path r) of
        None \<Rightarrow> Nothing
      | Some (h, ps) \<Rightarrow> Handler h ps)"
proof (induction routes)
  case Nil
  show ?case by simp
next
  case (Cons rt routes)
  obtain m p h where "rt = Route m p h" by (cases rt)
  with Cons show ?case by (simp split: option.splits)
qed

lemma automatic_options_direct: "automatic_options (map Direct routes) r = []"
  by (induction routes) simp_all

lemma defined_route_direct:
  "defined_route (map Direct routes) r
     = list_ex (\<lambda>rt. route_matches rt (req_method r) (req_path r)) routes"
  by (induction routes) (simp_all add: defined_route_def)

lemma find_layer_undefined:
  "\<not> defined_route layers r \<Longrightarrow>
   find_layer layers r =
     (if req_method r = OPTIONS \<and> automatic_options layers r \<noteq> []
      then Options (automatic_options layers r) else Nothing)"
proof (induction layers)
  case Nil
  show ?case by simp
next
  case (Cons l layers)
  from Cons.prems have here: "\<not> layer_matches l r" and rest: "\<not> defined_route layers r"
    by (simp_all add: defined_route_def)
  note IH = Cons.IH [OF rest]
  show ?case
  proof (cases l)
    case (Direct rt)
    obtain m p h where rt: "rt = Route m p h" by (cases rt)
    from here Direct rt have "\<not> (handles_method m (req_method r) \<and> match_path p (req_path r) \<noteq> None)"
      by simp
    with Direct rt IH show ?thesis by (auto split: option.splits)
  next
    case (Mounted prefix merge routes)
    show ?thesis
    proof (cases "match_prefix prefix (req_path r)")
      case None
      with Mounted IH show ?thesis by simp
    next
      case (Some pr)
      obtain parent rest where pr: "pr = (parent, rest)" by (cases pr)
      from here Mounted Some pr
      have "first_match routes (req_method r) (below_prefix rest) = None"
        by (simp add: first_match_None)
      with Mounted Some pr IH show ?thesis by simp
    qed
  qed
qed

lemma page_not_found_response:
  "serve page_not_found ps r s =
     (Sent \<lparr>status = 404,
            content = (if req_method r = HEAD then No_body
                       else View ''error'' (LErr (ExpressError ''Page Not Found'' 404)))\<rparr>, s)"
  by (simp add: serve_def page_not_found_def finish_def send_def error_handler_def
      no_message_def ExpressError_def headers_only_def)

section \<open>Rejections that nobody handles\<close>

text \<open>
  A wrapped handler, a synchronous handler and the catch-all stage always answer. So does
  every route of the router-based application; in the single-file application a request is
  left without a response only by the list route, and only when the store fails.
\<close>

lemma answers_catchAsync: "answers (catchAsync fn)"
  by (auto simp: answers_def catchAsync_def split: prod.splits sum.splits)

lemma answers_sync: "answers (sync fn)"
  by (auto simp: answers_def sync_def split: sum.splits)

lemma answers_validated: "answers h \<Longrightarrow> answers (validated v h)"
  by (auto simp: answers_def validated_def split: sum.splits)

lemma serve_answers:
  "answers h \<Longrightarrow> \<exists>resp. fst (serve h ps r s) = Sent resp"
proof -
  assume a: "answers h"
  obtain out s' where o: "h (request.extend r \<lparr>params = ps, flash = None\<rparr>) s = (out, s')"
    by (cases "h (request.extend r \<lparr>params = ps, flash = None\<rparr>) s")
  have "\<forall>e. out \<noteq> Unhandled e"
  proof
    fix e
    from a have "fst (h (request.extend r \<lparr>params = ps, flash = None\<rparr>) s) \<noteq> Unhandled e"
      unfolding answers_def by blast
    with o show "out \<noteq> Unhandled e" by simp
  qed
  with o show ?thesis
    by (cases out) (auto simp: serve_def finish_def send_def)
qed

lemma router_handlers_answer:
  "h \<in> set (handlers (router_layers cs rs)) \<Longrightarrow> answers h"
  by (auto simp: handlers_def router_layers_def campgrounds_router_def reviews_router_def
      answers_catchAsync answers_sync answers_validated)

theorem router_app_always_answers: "\<exists>resp. fst (router_app cs rs r s) = Sent resp"
proof (cases "find_layer (router_layers cs rs) r")
  case (Handler h ps)
  then have "h \<in> set (handlers (router_layers cs rs))" by (rule find_layer_handler)
  then have "answers h" by (rule router_handlers_answer)
  with Handler show ?thesis
    by (simp add: router_app_def dispatch_def serve_answers)
next
  case (Options ms)
  then show ?thesis by (simp add: router_app_def dispatch_def)
next
  case Nothing
  then show ?thesis
    by (simp add: router_app_def dispatch_def page_not_found_response)
qed

theorem single_app_unanswered_only_index:
  assumes "fst (single_app cs rs r s) = NoResponse e"
  shows "match_path [Lit ''campgrounds''] (req_path r) \<noteq> None \<and>
         (req_method r = GET \<or> req_method r = HEAD) \<and> fault s = Some e"
proof (cases "first_match (single_routes cs rs) (req_method r) (req_path r)")
  case None
  with assms show ?thesis
    by (simp add: single_app_def dispatch_def single_layers_def find_layer_direct
        page_not_found_response)
next
  case (Some hp)
  obtain h ps where hp: "hp = (h, ps)" by (cases hp)
  with Some first_match_route obtain m p where
    rt: "Route m p h \<in> set (single_routes cs rs)"
    and hm: "handles_method m (req_method r)" and mp: "match_path p (req_path r) = Some ps"
    by blast
  from assms Some hp have nr: "fst (serve h ps r s) = NoResponse e"
    by (simp add: single_app_def dispatch_def single_layers_def find_layer_direct)
  then have na: "\<not> answers h" using serve_answers [of h ps r s] by auto
  from rt na have h: "h = bare_async index_campgrounds" and m: "m = GET"
    and p: "p = [Lit ''campgrounds'']"
    by (auto simp: single_routes_def answers_catchAsync answers_sync answers_validated)
  from mp p have "match_path [Lit ''campgrounds''] (req_path r) \<noteq> None" by simp
  moreover from hm m have "req_method r = GET \<or> req_method r = HEAD"
    by (auto simp: handles_method_def)
  moreover from nr h have "fault s = Some e"
    by (auto simp: serve_def bare_async_def index_campgrounds_def await_def Campground_find_def
        respond_def render_def finish_def send_def split: option.splits)
  ultimately show ?thesis by simp
qed

section \<open>The error presenter\<close>

text \<open>
  C5: every error that reaches the error-handling middleware is answered with the error
  view; the status of the response is the error's \<open>statusCode\<close>, or 500 when it has none,
  and the error that is rendered carries its own message, or "Oh No, Something Went Wrong!"
  when it has none (an undefined or an empty message).
\<close>

theorem error_presenter_response:
  "finish (Forwarded err) = Sent (error_handler err) \<and>
   status (error_handler err) = (case statusCode err of None \<Rightarrow> 500 | Some c \<Rightarrow> c) \<and>
   content (error_handler err) =
     View ''error''
       (LErr (err\<lparr>message :=
                  (case message err of
                     None \<Rightarrow> Some (Text ''Oh No, Something Went Wrong!'')
                   | Some m \<Rightarrow> if m = Text [] then Some (Text ''Oh No, Something Went Wrong!'')
                               else Some m)\<rparr>))"
  by (cases err) (simp add: finish_def error_handler_def no_message_def split: option.splits)

section \<open>Validation\<close>

text \<open>
  C2: when the schema reports a violation, the validation middleware throws an error with
  status 400 whose message is the violation messages joined with a comma; the handler
  behind it is not called, so the response is the 400 error page and the store is left as
  it was. When the schema reports none, the handler behind the middleware runs.
\<close>

theorem validation_rejects_or_passes:
  "(schema b = Some err \<longrightarrow>
      validateCampground schema b = Inl (ExpressError (join '','' (map el_message (details err))) 400) \<and>
      validateReview schema b = Inl (ExpressError (join '','' (map el_message (details err))) 400) \<and>
      statusCode (ExpressError (join '','' (map el_message (details err))) 400) = Some 400 \<and>
      message (ExpressError (join '','' (map el_message (details err))) 400)
        = Some (Text (join '','' (map el_message (details err)))) \<and>
      (body rq = b \<longrightarrow>
         validated (validateCampground schema) h rq s
           = (Forwarded (ExpressError (join '','' (map el_message (details err))) 400), s) \<and>
         validated (validateReview schema) h rq s
           = (Forwarded (ExpressError (join '','' (map el_message (details err))) 400), s)) \<and>
      single_app schema rs \<lparr>req_method = POST, req_path = [''campgrounds''], body = b\<rparr> s
        = (Sent (error_handler (ExpressError (join '','' (map el_message (details err))) 400)), s) \<and>
      router_app schema rs \<lparr>req_method = POST, req_path = [''campgrounds''], body = b\<rparr> s
        = (Sent (error_handler (ExpressError (join '','' (map el_message (details err))) 400)), s) \<and>
      (i \<noteq> [] \<longrightarrow>
         single_app schema rs \<lparr>req_method = PUT, req_path = [''campgrounds'', i], body = b\<rparr> s
           = (Sent (error_handler (ExpressError (join '','' (map el_message (details err))) 400)), s) \<and>
         router_app schema rs \<lparr>req_method = PUT, req_path = [''campgrounds'', i], body = b\<rparr> s
           = (Sent (error_handler (ExpressError (join '','' (map el_message (details err))) 400)), s) \<and>
         single_app cs schema \<lparr>req_method = POST, req_path = [''campgrounds'', i, ''reviews''], body = b\<rparr> s
           = (Sent (error_handler (ExpressError (join '','' (map el_message (details err))) 400)), s) \<and>
         router_app cs schema \<lparr>req_method = POST, req_path = [''campgrounds'', i, ''reviews''], body = b\<rparr> s
           = (Sent (error_handler (ExpressError (join '','' (map el_message (details err))) 400)), s)) \<and>
      status (error_handler (ExpressError (join '','' (map el_message (details err))) 400)) = 400) \<and>
   (schema b = None \<longrightarrow>
      validateCampground schema b = Inr () \<and>
      validateReview schema b = Inr () \<and>
      (body rq = b \<longrightarrow>
         validated (validateCampground schema) h rq s = h rq s \<and>
         validated (validateReview schema) h rq s = h rq s) \<and>
      single_app schema rs \<lparr>req_method = POST, req_path = [''campgrounds''], body = b\<rparr> s
        = serve (catchAsync create_campground) Map.empty
            \<lparr>req_method = POST, req_path = [''campgrounds''], body = b\<rparr> s \<and>
      router_app schema rs \<lparr>req_method = POST, req_path = [''campgrounds''], body = b\<rparr> s
        = serve (catchAsync create_campground) Map.empty
            \<lparr>req_method = POST, req_path = [''campgrounds''], body = b\<rparr> s)"
proof (intro conjI impI)
  assume v: "schema b = Some err"
  let ?E = "ExpressError (join '','' (map el_message (details err))) 400"
  show c: "validateCampground schema b = Inl ?E"
    using v by (simp add: validateCampground_def)
  show r: "validateReview schema b = Inl ?E"
    using v by (simp add: validateReview_def)
  show "statusCode ?E = Some 400" by (simp add: ExpressError_def)
  show "message ?E = Some (Text (join '','' (map el_message (details err))))"
    by (simp add: ExpressError_def)
  show "status (error_handler ?E) = 400"
    by (simp add: error_handler_def ExpressError_def)
  show "single_app schema rs \<lparr>req_method = POST, req_path = [''campgrounds''], body = b\<rparr> s
        = (Sent (error_handler ?E), s)"
    using c by (simp add: post_campgrounds_route serve_invalid)
  show "router_app schema rs \<lparr>req_method = POST, req_path = [''campgrounds''], body = b\<rparr> s
        = (Sent (error_handler ?E), s)"
    using c by (simp add: post_campgrounds_route serve_invalid)
  {
    assume "body rq = b"
    then show "validated (validateCampground schema) h rq s = (Forwarded ?E, s)"
      using c by (simp add: validated_def)
  next
    assume "body rq = b"
    then show "validated (validateReview schema) h rq s = (Forwarded ?E, s)"
      using r by (simp add: validated_def)
  next
    assume i: "i \<noteq> []"
    show "single_app schema rs \<lparr>req_method = PUT, req_path = [''campgrounds'', i], body = b\<rparr> s
          = (Sent (error_handler ?E), s)"
      using c i by (simp add: put_campground_route serve_invalid)
    show "router_app schema rs \<lparr>req_method = PUT, req_path = [''campgrounds'', i], body = b\<rparr> s
          = (Sent (error_handler ?E), s)"
      using c i by (simp add: put_campground_route serve_invalid)
    show "single_app cs schema
            \<lparr>req_method = POST, req_path = [''campgrounds'', i, ''reviews''], body = b\<rparr> s
          = (Sent (error_handler ?E), s)"
      using r i by (simp add: post_review_route serve_invalid)
    show "router_app cs schema
            \<lparr>req_method = POST, req_path = [''campgrounds'', i, ''reviews''], body = b\<rparr> s
          = (Sent (error_handler ?E), s)"
      using r i by (simp add: post_review_route serve_invalid)
  }
next
  assume v: "schema b = None"
  show c: "validateCampground schema b = Inr ()"
    using v by (simp add: validateCampground_def)
  show r: "validateReview schema b = Inr ()"
    using v by (simp add: validateReview_def)
  show "single_app schema rs \<lparr>req_method = POST, req_path = [''campgrounds''], body = b\<rparr> s
        = serve (catchAsync create_campground) Map.empty
            \<lparr>req_method = POST, req_path = [''campgrounds''], body = b\<rparr> s"
    using c by (simp add: post_campgrounds_route serve_valid)
  show "router_app schema rs \<lparr>req_method = POST, req_path = [''campgrounds''], body = b\<rparr> s
        = serve (catchAsync create_campground) Map.empty
            \<lparr>req_method = POST, req_path = [''campgrounds''], body = b\<rparr> s"
    using c by (simp add: post_campgrounds_route serve_valid)
  {
    assume "body rq = b"
    then show "validated (validateCampground schema) h rq s = h rq s"
      using c by (simp add: validated_def)
  next
    assume "body rq = b"
    then show "validated (validateReview schema) h rq s = h rq s"
      using r by (simp add: validated_def)
  }
qed

theorem validation_rejects_or_passes_witness:
  "require_campground no_title_no_price
     = Some \<lparr>details = [\<lparr>el_message = ''title is required''\<rparr>, \<lparr>el_message = ''price is required''\<rparr>]\<rparr> \<and>
   validateCampground require_campground no_title_no_price
     = Inl \<lparr>message = Some (Text ''title is required,price is required''), statusCode = Some 400\<rparr> \<and>
   single_app require_campground accept_all
       \<lparr>req_method = POST, req_path = [''campgrounds''], body = no_title_no_price\<rparr> two_camps
     = (Sent \<lparr>status = 400,
              content = View ''error''
                (LErr \<lparr>message = Some (Text ''title is required,price is required''),
                       statusCode = Some 400\<rparr>)\<rparr>, two_camps) \<and>
   router_app require_campground accept_all
       \<lparr>req_method = PUT, req_path = [''campgrounds'', id0], body = no_title_no_price\<rparr> two_camps
     = (Sent \<lparr>status = 400,
              content = View ''error''
                (LErr \<lparr>message = Some (Text ''title is required,price is required''),
                       statusCode = Some 400\<rparr>)\<rparr>, two_camps) \<and>
   require_campground pine_ridge = None \<and>
   validateCampground require_campground pine_ridge = Inr () \<and>
   validated (validateCampground require_campground) page_not_found
       \<lparr>req_method = POST, req_path = [''campgrounds''], body = pine_ridge,
        params = Map.empty, flash = None\<rparr> two_camps
     = page_not_found
         \<lparr>req_method = POST, req_path = [''campgrounds''], body = pine_ridge,
          params = Map.empty, flash = None\<rparr> two_camps"
proof -
  have bad: "require_campground no_title_no_price
     = Some \<lparr>details = [\<lparr>el_message = ''title is required''\<rparr>, \<lparr>el_message = ''price is required''\<rparr>]\<rparr>"
    by (simp add: require_campground_def no_title_no_price_def)
  have good: "require_campground pine_ridge = None"
    by (simp add: require_campground_def pine_ridge_def)
  have a: "id0 \<noteq> []" by (simp add: id0_def)
  show ?thesis
    using bad good a
      validation_rejects_or_passes [of require_campground no_title_no_price
        "\<lparr>details = [\<lparr>el_message = ''title is required''\<rparr>, \<lparr>el_message = ''price is required''\<rparr>]\<rparr>"
        "\<lparr>req_method = POST, req_path = [''campgrounds''], body = no_title_no_price,
          params = Map.empty, flash = None\<rparr>"
        page_not_found two_camps accept_all id0 accept_all]
      validation_rejects_or_passes [of require_campground pine_ridge "\<lparr>details = []\<rparr>"
        "\<lparr>req_method = POST, req_path = [''campgrounds''], body = pine_ridge,
          params = Map.empty, flash = None\<rparr>"
        page_not_found two_camps accept_all id0 accept_all]
    by (simp add: ExpressError_def error_handler_def no_message_def)
qed


section \<open>Undefined routes\<close>

text \<open>
  C6, as stated, fails in the router-based application: no route is defined for
  \<open>OPTIONS /campgrounds\<close>, and the request does not reach the catch-all stage. The
  campgrounds router, which has routes for other methods on that path, answers it itself
  with status 200 and the methods of these routes.
\<close>

theorem options_answered_by_router_counterexample:
  "\<not> defined_route (router_layers accept_all accept_all)
       \<lparr>req_method = OPTIONS, req_path = [''campgrounds''], body = no_body\<rparr> \<and>
   router_app accept_all accept_all
       \<lparr>req_method = OPTIONS, req_path = [''campgrounds''], body = no_body\<rparr> two_camps
     = (Sent \<lparr>status = 200, content = Allow [GET, HEAD, POST]\<rparr>, two_camps)"
  by code_simp

text \<open>
  C6, amended: the catch-all stage passes a 404 error with the message "Page Not Found" to
  the error-handling middleware, whose response has status 404 and shows that message. In
  the single-file application every request whose method and path match no route gets this
  response (to \<open>HEAD\<close> without the body), and the store is left as it was. In the
  router-based application so does every such request except an \<open>OPTIONS\<close> request on a
  path for which a mounted router has routes of other methods: that router answers it with
  status 200 and these methods in the \<open>Allow\<close> header.
\<close>

theorem undefined_route_404:
  "page_not_found rq s = (Forwarded (ExpressError ''Page Not Found'' 404), s) \<and>
   error_handler (ExpressError ''Page Not Found'' 404)
     = \<lparr>status = 404, content = View ''error'' (LErr (ExpressError ''Page Not Found'' 404))\<rparr> \<and>
   (\<not> defined_route (single_layers cs rs) r \<longrightarrow>
      single_app cs rs r s =
        (Sent \<lparr>status = 404,
               content = (if req_method r = HEAD then No_body
                          else View ''error'' (LErr (ExpressError ''Page Not Found'' 404)))\<rparr>, s)) \<and>
   (\<not> defined_route (router_layers cs rs) r \<longrightarrow>
      router_app cs rs r s =
        (if req_method r = OPTIONS \<and> automatic_options (router_layers cs rs) r \<noteq> []
         then (Sent \<lparr>status = 200,
                     content = Allow (automatic_options (router_layers cs rs) r)\<rparr>, s)
         else (Sent \<lparr>status = 404,
                     content = (if req_method r = HEAD then No_body
                                else View ''error'' (LErr (ExpressError ''Page Not Found'' 404)))\<rparr>,
               s)))"
proof (intro conjI impI)
  show "page_not_found rq s = (Forwarded (ExpressError ''Page Not Found'' 404), s)"
    by (simp add: page_not_found_def)
  show "error_handler (ExpressError ''Page Not Found'' 404)
     = \<lparr>status = 404, content = View ''error'' (LErr (ExpressError ''Page Not Found'' 404))\<rparr>"
    by (simp add: error_handler_def no_message_def ExpressError_def)
next
  assume "\<not> defined_route (single_layers cs rs) r"
  then have "find_layer (single_layers cs rs) r = Nothing"
    by (simp add: find_layer_undefined) (simp add: single_layers_def automatic_options_direct)
  then show "single_app cs rs r s =
        (Sent \<lparr>status = 404,
               content = (if req_method r = HEAD then No_body
                          else View ''error'' (LErr (ExpressError ''Page Not Found'' 404)))\<rparr>, s)"
    by (simp add: single_app_def dispatch_def page_not_found_response)
next
  assume "\<not> defined_route (router_layers cs rs) r"
  then have "find_layer (router_layers cs rs) r =
     (if req_method r = OPTIONS \<and> automatic_options (router_layers cs rs) r \<noteq> []
      then Options (automatic_options (router_layers cs rs) r) else Nothing)"
    by (rule find_layer_undefined)
  then show "router_app cs rs r s =
        (if req_method r = OPTIONS \<and> automatic_options (router_layers cs rs) r \<noteq> []
         then (Sent \<lparr>status = 200,
                     content = Allow (automatic_options (router_layers cs rs) r)\<rparr>, s)
         else (Sent \<lparr>status = 404,
                     content = (if req_method r = HEAD then No_body
                                else View ''error'' (LErr (ExpressError ''Page Not Found'' 404)))\<rparr>,
               s))"
    by (simp add: router_app_def dispatch_def page_not_found_response)
qed

theorem undefined_route_404_witness:
  "\<not> defined_route (single_layers accept_all accept_all)
       \<lparr>req_method = GET, req_path = [''campgrounds'', id0, ''reviews''], body = no_body\<rparr> \<and>
   \<not> defined_route (router_layers accept_all accept_all)
       \<lparr>req_method = GET, req_path = [''campgrounds'', id0, ''reviews''], body = no_body\<rparr> \<and>
   single_app accept_all accept_all
     \<lparr>req_method = GET, req_path = [''campgrounds'', id0, ''reviews''], body = no_body\<rparr> two_camps =
     (Sent \<lparr>status = 404,
            content = View ''error''
              (LErr \<lparr>message = Some (Text ''Page Not Found''), statusCode = Some 404\<rparr>)\<rparr>,
      two_camps) \<and>
   router_app accept_all accept_all
     \<lparr>req_method = GET, req_path = [''campgrounds'', id0, ''reviews''], body = no_body\<rparr> two_camps =
     (Sent \<lparr>status = 404,
            content = View ''error''
              (LErr \<lparr>message = Some (Text ''Page Not Found''), statusCode = Some 404\<rparr>)\<rparr>,
      two_camps) \<and>
   \<not> defined_route (single_layers accept_all accept_all)
       \<lparr>req_method = OPTIONS, req_path = [''campgrounds'', id0, ''reviews''], body = no_body\<rparr> \<and>
   \<not> defined_route (router_layers accept_all accept_all)
       \<lparr>req_method = OPTIONS, req_path = [''campgrounds'', id0, ''reviews''], body = no_body\<rparr> \<and>
   single_app accept_all accept_all
     \<lparr>req_method = OPTIONS, req_path = [''campgrounds'', id0, ''reviews''], body = no_body\<rparr> two_camps =
     (Sent \<lparr>status = 404,
            content = View ''error''
              (LErr \<lparr>message = Some (Text ''Page Not Found''), statusCode = Some 404\<rparr>)\<rparr>,
      two_camps) \<and>
   router_app accept_all accept_all
     \<lparr>req_method = OPTIONS, req_path = [''campgrounds'', id0, ''reviews''], body = no_body\<rparr> two_camps =
     (Sent \<lparr>status = 200, content = Allow [POST]\<rparr>, two_camps) \<and>
   \<not> defined_route (router_layers accept_all accept_all)
       \<lparr>req_method = OPTIONS, req_path = [''reviews''], body = no_body\<rparr> \<and>
   router_app accept_all accept_all
     \<lparr>req_method = OPTIONS, req_path = [''reviews''], body = no_body\<rparr> two_camps =
     (Sent \<lparr>status = 404,
            content = View ''error''
              (LErr \<lparr>message = Some (Text ''Page Not Found''), statusCode = Some 404\<rparr>)\<rparr>,
      two_camps)"
proof -
  let ?get = "\<lparr>req_method = GET, req_path = [''campgrounds'', id0, ''reviews''], body = no_body\<rparr>"
  let ?options = "\<lparr>req_method = OPTIONS, req_path = [''campgrounds'', id0, ''reviews''], body = no_body\<rparr>"
  let ?nowhere = "\<lparr>req_method = OPTIONS, req_path = [''reviews''], body = no_body\<rparr>"
  have 1: "\<not> defined_route (single_layers accept_all accept_all) ?get"
    "\<not> defined_route (router_layers accept_all accept_all) ?get"
    "\<not> defined_route (single_layers accept_all accept_all) ?options"
    "\<not> defined_route (router_layers accept_all accept_all) ?options"
    "\<not> defined_route (router_layers accept_all accept_all) ?nowhere"
    by code_simp+
  have 2: "automatic_options (router_layers accept_all accept_all) ?options = [POST]"
    "automatic_options (router_layers accept_all accept_all) ?nowhere = []"
    by code_simp+
  show ?thesis
    using 1 2
      undefined_route_404 [where cs = accept_all and rs = accept_all and r = "?get"
          and s = two_camps]
      undefined_route_404 [where cs = accept_all and rs = accept_all and r = "?options"
          and s = two_camps]
      undefined_route_404 [where cs = accept_all and rs = accept_all and r = "?nowhere"
          and s = two_camps]
    by (simp add: ExpressError_def)
qed

section \<open>The async wrapper\<close>

text \<open>
  C3: in the single-file application the handler of \<open>GET /campgrounds\<close> reads the store
  and is registered without the wrapper. When the store operation fails there, the
  rejection is handled by nobody and no response is sent; the same request to the
  router-based application, whose handler is wrapped, is answered by the error-handling
  middleware.
\<close>

theorem unwrapped_index_rejection:
  "single_app cs rs \<lparr>req_method = GET, req_path = [''campgrounds''], body = b\<rparr> (s\<lparr>fault := Some e\<rparr>) =
     (NoResponse e, s\<lparr>fault := Some e\<rparr>) \<and>
   router_app cs rs \<lparr>req_method = GET, req_path = [''campgrounds''], body = b\<rparr> (s\<lparr>fault := Some e\<rparr>) =
     (Sent (error_handler e), s\<lparr>fault := Some e\<rparr>)"
  by (simp add: app_defs serve_def send_def bare_async_def catchAsync_def index_campgrounds_def
      await_def Campground_find_def finish_def)

section \<open>Creating a campground\<close>

text \<open>
  C7: when the payload satisfies the campground schema, the store answers, and the
  identifier the store assigns is not in use, \<open>POST /campgrounds\<close> adds exactly one
  document to the campground collection, made of the payload's fields under the assigned
  identifier and with no reviews, changes nothing else, and redirects to
  \<open>/campgrounds/{newId}\<close> with that identifier.
\<close>

theorem create_campground_persists_one:
  assumes "schema b = None"
    and "fault s = None"
    and "by_id (objectId (next_id s)) (campground_docs s) = None"
  shows "single_app schema rs \<lparr>req_method = POST, req_path = [''campgrounds''], body = b\<rparr> s =
           (Sent \<lparr>status = 302, content = Location (''/campgrounds/'' @ objectId (next_id s))\<rparr>,
            s\<lparr>campground_docs := campground_docs s @
                 [\<lparr>c_id = objectId (next_id s), c_fields = the_fields (body_campground b),
                   reviews = []\<rparr>],
              next_id := Suc (next_id s)\<rparr>) \<and>
         router_app schema rs \<lparr>req_method = POST, req_path = [''campgrounds''], body = b\<rparr> s =
           (Sent \<lparr>status = 302, content = Location (''/campgrounds/'' @ objectId (next_id s))\<rparr>,
            s\<lparr>campground_docs := campground_docs s @
                 [\<lparr>c_id = objectId (next_id s), c_fields = the_fields (body_campground b),
                   reviews = []\<rparr>],
              next_id := Suc (next_id s)\<rparr>)"
proof -
  have "validateCampground schema b = Inr ()"
    using assms(1) by (simp add: validateCampground_def)
  then show ?thesis
    using assms(2,3) by (simp add: post_campgrounds_route serve_valid serve_create)
qed

theorem create_campground_persists_one_witness:
  "single_app require_campground accept_all
     \<lparr>req_method = POST, req_path = [''campgrounds''], body = lake_view\<rparr> two_camps =
     (Sent \<lparr>status = 302, content = Location (''/campgrounds/'' @ id4)\<rparr>,
      two_camps
        \<lparr>campground_docs :=
           [pine_ridge_doc, lake_view_doc,
            \<lparr>c_id = id4,
              c_fields = [(''title'', ''Lake View''), (''location'', ''MN''), (''price'', ''30'')],
              reviews = []\<rparr>],
         next_id := 5\<rparr>)"
proof -
  have 1: "require_campground lake_view = None"
    by (simp add: require_campground_def lake_view_def)
  have 2: "fault two_camps = None" by (simp add: two_camps_def)
  have 3: "by_id (objectId (next_id two_camps)) (campground_docs two_camps) = None"
    by (simp add: example_defs by_id_def objectId_digits) (simp add: id_defs)
  show ?thesis
    using 1 2 3 create_campground_persists_one [of require_campground lake_view two_camps accept_all]
    by (simp add: example_defs lake_view_def objectId_digits the_fields_def)
qed

section \<open>Deleting a campground\<close>

text \<open>
  C1: when the store answers, \<open>DELETE /campgrounds/:id\<close> for the identifier of a stored
  campground removes that campground and every review whose identifier is in its review
  list, and redirects to the list. Afterwards no campground has the identifier and no
  review named by the deleted campground is left; when every reference named a review
  before and no review was shared with another campground, every reference names a review
  afterwards.
\<close>

theorem delete_campground_cascades:
  assumes "fault s = None" and "castObjectId v = Some i"
    and "by_id i (campground_docs s) = Some c"
  shows "\<exists>s'. single_app cs rs \<lparr>req_method = DELETE, req_path = [''campgrounds'', v], body = b\<rparr> s
                = (Sent \<lparr>status = 302, content = Location ''/campgrounds''\<rparr>, s') \<and>
              router_app cs rs \<lparr>req_method = DELETE, req_path = [''campgrounds'', v], body = b\<rparr> s
                = (Sent \<lparr>status = 302, content = Location ''/campgrounds''\<rparr>, s') \<and>
              campground_docs s' = filter (\<lambda>d. c_id d \<noteq> i) (campground_docs s) \<and>
              review_docs s' = filter (\<lambda>r. r_id r \<notin> set (reviews c)) (review_docs s) \<and>
              by_id i (campground_docs s') = None \<and>
              (\<forall>rid \<in> set (reviews c). review_by_id rid (review_docs s') = None) \<and>
              (referential s \<and> exclusive s \<longrightarrow> referential s')"
proof -
  let ?s' = "s\<lparr>campground_docs := filter (\<lambda>d. c_id d \<noteq> i) (campground_docs s),
               review_docs := filter (\<lambda>r. r_id r \<notin> set (reviews c)) (review_docs s)\<rparr>"
  have v: "v \<noteq> []" using assms(2) by (rule cast_not_empty)
  have "single_app cs rs \<lparr>req_method = DELETE, req_path = [''campgrounds'', v], body = b\<rparr> s
          = (Sent \<lparr>status = 302, content = Location ''/campgrounds''\<rparr>, ?s')"
    using assms v by (simp add: campground_route serve_delete [where v = v and i = i])
  moreover have "router_app cs rs \<lparr>req_method = DELETE, req_path = [''campgrounds'', v], body = b\<rparr> s
          = (Sent \<lparr>status = 302, content = Location ''/campgrounds''\<rparr>, ?s')"
    using assms v by (simp add: campground_route serve_delete [where v = v and i = i])
  moreover have "by_id i (campground_docs ?s') = None"
    by (simp add: by_id_filter_out)
  moreover have "\<forall>rid \<in> set (reviews c). review_by_id rid (review_docs ?s') = None"
    by (auto simp: review_by_id_None)
  moreover have "referential s \<and> exclusive s \<longrightarrow> referential ?s'"
    using referential_after_delete [OF _ _ assms(3)] by blast
  ultimately show ?thesis
    by (intro exI [of _ ?s']) simp
qed

theorem delete_campground_cascades_witness:
  "referential two_camps \<and> exclusive two_camps \<and>
   router_app accept_all accept_all
     \<lparr>req_method = DELETE, req_path = [''campgrounds'', id0], body = no_body\<rparr> two_camps
     = (Sent \<lparr>status = 302, content = Location ''/campgrounds''\<rparr>,
        two_camps\<lparr>campground_docs := [lake_view_doc], review_docs := [noisy_doc]\<rparr>) \<and>
   referential (two_camps\<lparr>campground_docs := [lake_view_doc], review_docs := [noisy_doc]\<rparr>)"
proof -
  have 1: "fault two_camps = None" by (simp add: two_camps_def)
  have 2: "castObjectId id0 = Some id0" by (rule cast_examples)
  have 3: "by_id id0 (campground_docs two_camps) = Some pine_ridge_doc"
    by (simp add: example_defs by_id_def)
  have 4: "referential two_camps"
    by (simp add: referential_def example_defs review_by_id_def)
  have 5: "exclusive two_camps"
    by (simp add: exclusive_def example_defs) (simp add: id_defs)
  from delete_campground_cascades [OF 1 2 3, of accept_all accept_all no_body]
  obtain s' where
    r: "router_app accept_all accept_all
          \<lparr>req_method = DELETE, req_path = [''campgrounds'', id0], body = no_body\<rparr> two_camps
        = (Sent \<lparr>status = 302, content = Location ''/campgrounds''\<rparr>, s')"
    and cd: "campground_docs s' = filter (\<lambda>d. c_id d \<noteq> id0) (campground_docs two_camps)"
    and rd: "review_docs s' = filter (\<lambda>r. r_id r \<notin> set (reviews pine_ridge_doc)) (review_docs two_camps)"
    and ref: "referential two_camps \<and> exclusive two_camps \<longrightarrow> referential s'"
    by auto
  have "snd (router_app accept_all accept_all
          \<lparr>req_method = DELETE, req_path = [''campgrounds'', id0], body = no_body\<rparr> two_camps)
        = two_camps\<lparr>campground_docs := [lake_view_doc], review_docs := [noisy_doc]\<rparr>"
    by code_simp
  with r have "s' = two_camps\<lparr>campground_docs := [lake_view_doc], review_docs := [noisy_doc]\<rparr>"
    by simp
  with 4 5 r ref show ?thesis by simp
qed

text \<open>
  C9, as stated, fails: \<open>DELETE /campgrounds/not-an-object-id\<close> is not answered with the
  redirect. The store operation rejects a value that is no identifier, and the response
  is the error page with status 500.
\<close>

theorem delete_campground_cast_counterexample:
  "fault two_camps = None \<and>
   single_app accept_all accept_all
     \<lparr>req_method = DELETE, req_path = [''campgrounds'', ''not-an-object-id''], body = no_body\<rparr>
     two_camps
     = (Sent \<lparr>status = 500,
              content = View ''error''
                (LErr \<lparr>message = Some (Cast_failure ''not-an-object-id''), statusCode = None\<rparr>)\<rparr>,
        two_camps) \<and>
   router_app accept_all accept_all
     \<lparr>req_method = DELETE, req_path = [''campgrounds'', ''not-an-object-id''], body = no_body\<rparr>
     two_camps
     = (Sent \<lparr>status = 500,
              content = View ''error''
                (LErr \<lparr>message = Some (Cast_failure ''not-an-object-id''), statusCode = None\<rparr>)\<rparr>,
        two_camps)"
  by code_simp

text \<open>
  C9, amended: when the store answers, \<open>DELETE /campgrounds/:id\<close> redirects to
  \<open>/campgrounds\<close> for every value that is an identifier (24 hexadecimal digits), whether
  a campground has it or not. For a value that is no identifier (and not 12 characters
  long) the store operation rejects, and the response is the error page with status 500
  and the store is left as it was. For every value, deleting a second time leaves the
  store as the first deletion left it.
\<close>

theorem delete_campground_redirects_idempotent:
  assumes "fault s = None" and "v \<noteq> []"
  shows "(castObjectId v = Some i \<longrightarrow>
            fst (single_app cs rs \<lparr>req_method = DELETE, req_path = [''campgrounds'', v], body = b\<rparr> s)
              = Sent \<lparr>status = 302, content = Location ''/campgrounds''\<rparr> \<and>
            fst (router_app cs rs \<lparr>req_method = DELETE, req_path = [''campgrounds'', v], body = b\<rparr> s)
              = Sent \<lparr>status = 302, content = Location ''/campgrounds''\<rparr>) \<and>
         (castObjectId v = None \<and> length v \<noteq> 12 \<longrightarrow>
            single_app cs rs \<lparr>req_method = DELETE, req_path = [''campgrounds'', v], body = b\<rparr> s
              = (Sent \<lparr>status = 500, content = View ''error'' (LErr (CastError v))\<rparr>, s) \<and>
            router_app cs rs \<lparr>req_method = DELETE, req_path = [''campgrounds'', v], body = b\<rparr> s
              = (Sent \<lparr>status = 500, content = View ''error'' (LErr (CastError v))\<rparr>, s)) \<and>
         snd (single_app cs rs \<lparr>req_method = DELETE, req_path = [''campgrounds'', v], body = b\<rparr>
                (snd (single_app cs rs
                        \<lparr>req_method = DELETE, req_path = [''campgrounds'', v], body = b\<rparr> s)))
           = snd (single_app cs rs \<lparr>req_method = DELETE, req_path = [''campgrounds'', v], body = b\<rparr> s) \<and>
         snd (router_app cs rs \<lparr>req_method = DELETE, req_path = [''campgrounds'', v], body = b\<rparr>
                (snd (router_app cs rs
                        \<lparr>req_method = DELETE, req_path = [''campgrounds'', v], body = b\<rparr> s)))
           = snd (router_app cs rs \<lparr>req_method = DELETE, req_path = [''campgrounds'', v], body = b\<rparr> s)"
proof (cases "castObjectId v")
  case None
  with assms show ?thesis
    by (simp add: campground_route serve_delete_no_id [where v = v])
next
  case (Some j)
  with assms show ?thesis
    by (simp add: campground_route serve_delete [where v = v and i = j] by_id_filter_out
        split: option.splits)
qed

theorem delete_campground_redirects_idempotent_witness:
  "castObjectId id_absent = Some id_absent \<and>
   router_app accept_all accept_all
     \<lparr>req_method = DELETE, req_path = [''campgrounds'', id_absent], body = no_body\<rparr> two_camps
     = (Sent \<lparr>status = 302, content = Location ''/campgrounds''\<rparr>, two_camps) \<and>
   snd (single_app accept_all accept_all
          \<lparr>req_method = DELETE, req_path = [''campgrounds'', id0], body = no_body\<rparr>
          (snd (single_app accept_all accept_all
                  \<lparr>req_method = DELETE, req_path = [''campgrounds'', id0], body = no_body\<rparr> two_camps)))
     = snd (single_app accept_all accept_all
              \<lparr>req_method = DELETE, req_path = [''campgrounds'', id0], body = no_body\<rparr> two_camps) \<and>
   castObjectId no_id = None \<and> length no_id = 16 \<and>
   single_app accept_all accept_all
       \<lparr>req_method = DELETE, req_path = [''campgrounds'', no_id], body = no_body\<rparr> two_camps
     = (Sent \<lparr>status = 500,
              content = View ''error''
                (LErr \<lparr>message = Some (Cast_failure no_id), statusCode = None\<rparr>)\<rparr>,
        two_camps)"
proof -
  have 1: "fault two_camps = None" by (simp add: two_camps_def)
  have 2: "id0 \<noteq> []" "id_absent \<noteq> []" "no_id \<noteq> []" by (simp_all add: id_defs)
  have 3: "snd (router_app accept_all accept_all
     \<lparr>req_method = DELETE, req_path = [''campgrounds'', id_absent], body = no_body\<rparr> two_camps)
     = two_camps"
    by code_simp
  have 4: "length no_id = 16" by (simp add: no_id_def)
  show ?thesis
    using 3 4 cast_examples
      delete_campground_redirects_idempotent [OF 1 2(1), where i = id0 and cs = accept_all
        and rs = accept_all and b = no_body]
      delete_campground_redirects_idempotent [OF 1 2(2), where i = id_absent and cs = accept_all
        and rs = accept_all and b = no_body]
      delete_campground_redirects_idempotent [OF 1 2(3), where cs = accept_all
        and rs = accept_all and b = no_body]
    by (simp add: prod_eq_iff CastError_def)
qed

section \<open>Deleting a review\<close>

text \<open>
  C8, as stated, fails: a review that the campground does not refer to is deleted from the
  review collection while the campground's reference list keeps its length.
\<close>

theorem delete_review_not_referenced_counterexample:
  "review_by_id id3 (review_docs two_camps) = Some noisy_doc \<and>
   reviews_of id0 two_camps = [id2] \<and>
   reviews_of id0 (snd (single_app accept_all accept_all
       \<lparr>req_method = DELETE, req_path = [''campgrounds'', id0, ''reviews'', id3], body = no_body\<rparr>
       two_camps)) = [id2] \<and>
   review_by_id id3 (review_docs (snd (single_app accept_all accept_all
       \<lparr>req_method = DELETE, req_path = [''campgrounds'', id0, ''reviews'', id3], body = no_body\<rparr>
       two_camps))) = None \<and>
   length (reviews_of id0 (snd (single_app accept_all accept_all
       \<lparr>req_method = DELETE, req_path = [''campgrounds'', id0, ''reviews'', id3], body = no_body\<rparr>
       two_camps))) + 1 \<noteq> length (reviews_of id0 two_camps)"
  by code_simp

text \<open>
  C8, amended: when the store answers, \<open>DELETE /campgrounds/:id/reviews/:reviewId\<close> for
  the identifier of a stored campground removes every occurrence of the review identifier
  from that campground's reference list, deletes the review with that identifier from the
  review collection, and redirects to the campground. The list gets shorter by the number
  of occurrences of the identifier: by exactly one when it occurs exactly once.
\<close>

theorem delete_review_removes_reference:
  assumes "fault s = None" and "castObjectId v = Some i" and "castObjectId w = Some rid"
    and "by_id i (campground_docs s) = Some c"
  shows "\<exists>s'. single_app cs rs
                \<lparr>req_method = DELETE, req_path = [''campgrounds'', v, ''reviews'', w], body = b\<rparr> s
                = (Sent \<lparr>status = 302, content = Location (''/campgrounds/'' @ v)\<rparr>, s') \<and>
              router_app cs rs
                \<lparr>req_method = DELETE, req_path = [''campgrounds'', v, ''reviews'', w], body = b\<rparr> s
                = (Sent \<lparr>status = 302, content = Location (''/campgrounds/'' @ v)\<rparr>, s') \<and>
              by_id i (campground_docs s') = Some (c\<lparr>reviews := removeAll rid (reviews c)\<rparr>) \<and>
              rid \<notin> set (removeAll rid (reviews c)) \<and>
              review_by_id rid (review_docs s') = None \<and>
              review_docs s' = filter (\<lambda>r. r_id r \<noteq> rid) (review_docs s) \<and>
              length (removeAll rid (reviews c)) + count_list (reviews c) rid = length (reviews c) \<and>
              (count_list (reviews c) rid = 1 \<longrightarrow>
                 length (removeAll rid (reviews c)) + 1 = length (reviews c))"
proof -
  let ?s' = "s\<lparr>campground_docs :=
                 map (\<lambda>c. if c_id c = i then c\<lparr>reviews := removeAll rid (reviews c)\<rparr> else c)
                   (campground_docs s),
               review_docs := filter (\<lambda>r. r_id r \<noteq> rid) (review_docs s)\<rparr>"
  have ci: "c_id c = i" using by_id_Some [OF assms(4)] by simp
  have v: "v \<noteq> []" using assms(2) by (rule cast_not_empty)
  have w: "w \<noteq> []" using assms(3) by (rule cast_not_empty)
  have "single_app cs rs
          \<lparr>req_method = DELETE, req_path = [''campgrounds'', v, ''reviews'', w], body = b\<rparr> s
        = (Sent \<lparr>status = 302, content = Location (''/campgrounds/'' @ v)\<rparr>, ?s')"
    using assms v w
    by (simp add: delete_review_route
        serve_delete_review [where v = v and w = w and i = i and rid = rid])
  moreover have "router_app cs rs
          \<lparr>req_method = DELETE, req_path = [''campgrounds'', v, ''reviews'', w], body = b\<rparr> s
        = (Sent \<lparr>status = 302, content = Location (''/campgrounds/'' @ v)\<rparr>, ?s')"
    using assms v w
    by (simp add: delete_review_route
        serve_delete_review [where v = v and w = w and i = i and rid = rid])
  moreover have "by_id i (campground_docs ?s') = Some (c\<lparr>reviews := removeAll rid (reviews c)\<rparr>)"
    using assms(4) ci
    by (simp add: by_id_map_update [where f = "\<lambda>c. c\<lparr>reviews := removeAll rid (reviews c)\<rparr>"])
  moreover have "review_by_id rid (review_docs ?s') = None"
    by (auto simp: review_by_id_None)
  moreover have len: "length (removeAll rid (reviews c)) + count_list (reviews c) rid = length (reviews c)"
    by (rule length_removeAll_count)
  moreover have "count_list (reviews c) rid = 1 \<longrightarrow>
                 length (removeAll rid (reviews c)) + 1 = length (reviews c)"
    using len by simp
  ultimately show ?thesis
    by (intro exI [of _ ?s']) simp
qed

theorem delete_review_removes_reference_witness:
  "single_app accept_all accept_all
     \<lparr>req_method = DELETE, req_path = [''campgrounds'', id0, ''reviews'', id2], body = no_body\<rparr>
     two_camps
     = (Sent \<lparr>status = 302, content = Location (''/campgrounds/'' @ id0)\<rparr>,
        two_camps\<lparr>campground_docs := [pine_ridge_doc\<lparr>reviews := []\<rparr>, lake_view_doc],
                  review_docs := [noisy_doc]\<rparr>) \<and>
   count_list (reviews pine_ridge_doc) id2 = 1 \<and>
   length (removeAll id2 (reviews pine_ridge_doc)) + 1 = length (reviews pine_ridge_doc)"
proof -
  have 1: "fault two_camps = None" by (simp add: two_camps_def)
  have 2: "castObjectId id0 = Some id0" "castObjectId id2 = Some id2" by (rule cast_examples)+
  have 3: "by_id id0 (campground_docs two_camps) = Some pine_ridge_doc"
    by (simp add: example_defs by_id_def)
  have 4: "snd (single_app accept_all accept_all
     \<lparr>req_method = DELETE, req_path = [''campgrounds'', id0, ''reviews'', id2], body = no_body\<rparr>
     two_camps)
     = two_camps\<lparr>campground_docs := [pine_ridge_doc\<lparr>reviews := []\<rparr>, lake_view_doc],
                  review_docs := [noisy_doc]\<rparr>"
    by code_simp
  have 5: "count_list (reviews pine_ridge_doc) id2 = 1"
    by (simp add: pine_ridge_doc_def)
  from delete_review_removes_reference [OF 1 2 3, of accept_all accept_all no_body]
  obtain s' where
    r: "single_app accept_all accept_all
          \<lparr>req_method = DELETE, req_path = [''campgrounds'', id0, ''reviews'', id2], body = no_body\<rparr>
          two_camps
        = (Sent \<lparr>status = 302, content = Location (''/campgrounds/'' @ id0)\<rparr>, s')"
    and len: "count_list (reviews pine_ridge_doc) id2 = 1 \<longrightarrow>
                length (removeAll id2 (reviews pine_ridge_doc)) + 1 = length (reviews pine_ridge_doc)"
    by blast
  from r 4 have "s' = two_camps\<lparr>campground_docs := [pine_ridge_doc\<lparr>reviews := []\<rparr>, lake_view_doc],
                  review_docs := [noisy_doc]\<rparr>"
    by simp
  with r 5 len show ?thesis by simp
qed

text \<open>
  The handler does not check that the review belongs to the campground of the path: a
  review deleted through the path of another identifier stays in its owner's list, which
  then refers to no record.
\<close>

lemma delete_review_through_other_path:
  "referential two_camps \<and>
   \<not> referential (snd (router_app accept_all accept_all
       \<lparr>req_method = DELETE, req_path = [''campgrounds'', id0, ''reviews'', id3], body = no_body\<rparr>
       two_camps))"
proof -
  have "snd (router_app accept_all accept_all
       \<lparr>req_method = DELETE, req_path = [''campgrounds'', id0, ''reviews'', id3], body = no_body\<rparr>
       two_camps)
     = two_camps\<lparr>review_docs := [great_doc]\<rparr>"
    by code_simp
  then show ?thesis
    by (simp add: example_defs referential_def review_by_id_def) (simp add: id_defs)
qed

section \<open>Posting a review to the router-based application\<close>

text \<open>
  C10: in the router-based application, a valid review posted to an existing campground
  while the store answers is saved, and the campground is saved with the reference to it;
  then the call of \<open>req.flash\<close>, which no middleware defines, fails, and the response is
  the error page with status 500 instead of the redirect. The store keeps the review and
  the updated campground. The single-file application, whose handler does not call
  \<open>req.flash\<close>, makes the same changes and redirects.
\<close>

theorem review_post_fails_after_saving:
  assumes "schema b = None" and "fault s = None" and "castObjectId v = Some i"
    and "by_id i (campground_docs s) = Some c"
  shows "\<exists>s'. router_app cs schema
                \<lparr>req_method = POST, req_path = [''campgrounds'', v, ''reviews''], body = b\<rparr> s
                = (Sent \<lparr>status = 500,
                         content = View ''error'' (LErr (TypeError ''req.flash is not a function''))\<rparr>,
                   s') \<and>
              single_app cs schema
                \<lparr>req_method = POST, req_path = [''campgrounds'', v, ''reviews''], body = b\<rparr> s
                = (Sent \<lparr>status = 302, content = Location (''/campgrounds/'' @ i)\<rparr>, s') \<and>
              review_docs s' =
                put_review \<lparr>r_id = objectId (next_id s), r_fields = the_fields (body_review b)\<rparr>
                  (review_docs s) \<and>
              campground_docs s' =
                put_campground (c\<lparr>reviews := reviews c @ [objectId (next_id s)]\<rparr>) (campground_docs s) \<and>
              review_by_id (objectId (next_id s)) (review_docs s')
                = Some \<lparr>r_id = objectId (next_id s), r_fields = the_fields (body_review b)\<rparr> \<and>
              by_id i (campground_docs s') = Some (c\<lparr>reviews := reviews c @ [objectId (next_id s)]\<rparr>)"
proof -
  let ?rv = "\<lparr>r_id = objectId (next_id s), r_fields = the_fields (body_review b)\<rparr>"
  let ?c' = "c\<lparr>reviews := reviews c @ [objectId (next_id s)]\<rparr>"
  let ?s' = "s\<lparr>next_id := Suc (next_id s),
               review_docs := put_review ?rv (review_docs s),
               campground_docs := put_campground ?c' (campground_docs s)\<rparr>"
  have val: "validateReview schema b = Inr ()"
    using assms(1) by (simp add: validateReview_def)
  have ci: "c_id c = i" using by_id_Some [OF assms(4)] by simp
  have v: "v \<noteq> []" using assms(3) by (rule cast_not_empty)
  have "router_app cs schema
          \<lparr>req_method = POST, req_path = [''campgrounds'', v, ''reviews''], body = b\<rparr> s
        = (Sent \<lparr>status = 500,
                 content = View ''error'' (LErr (TypeError ''req.flash is not a function''))\<rparr>, ?s')"
    using val v assms(2,3,4)
    by (simp add: post_review_route serve_valid
        serve_create_review_flash [where v = v and i = i and c = c])
  moreover have "single_app cs schema
          \<lparr>req_method = POST, req_path = [''campgrounds'', v, ''reviews''], body = b\<rparr> s
        = (Sent \<lparr>status = 302, content = Location (''/campgrounds/'' @ i)\<rparr>, ?s')"
    using val v assms(2,3,4)
    by (simp add: post_review_route serve_valid
        serve_create_review [where v = v and i = i and c = c])
  moreover have "review_by_id (objectId (next_id s)) (review_docs ?s') = Some ?rv"
    using review_by_id_put [of ?rv "review_docs s"] by simp
  moreover have "by_id i (campground_docs ?s') = Some ?c'"
    using by_id_put [of ?c' "campground_docs s"] ci by simp
  ultimately show ?thesis
    by (intro exI [of _ ?s']) simp
qed

theorem review_post_fails_after_saving_witness:
  "router_app accept_all accept_all
     \<lparr>req_method = POST, req_path = [''campgrounds'', id0, ''reviews''], body = great\<rparr> two_camps
     = (Sent \<lparr>status = 500,
              content = View ''error''
                (LErr \<lparr>message = Some (Text ''req.flash is not a function''), statusCode = None\<rparr>)\<rparr>,
        two_camps
          \<lparr>campground_docs := [pine_ridge_doc\<lparr>reviews := [id2, id4]\<rparr>, lake_view_doc],
           review_docs :=
             [great_doc, noisy_doc,
              \<lparr>r_id = id4, r_fields = [(''rating'', ''5''), (''body'', ''Great'')]\<rparr>],
           next_id := 5\<rparr>)"
proof -
  have 0: "accept_all great = None" by (simp add: accept_all_def)
  have 1: "fault two_camps = None" by (simp add: two_camps_def)
  have 2: "castObjectId id0 = Some id0" by (rule cast_examples)
  have 3: "by_id id0 (campground_docs two_camps) = Some pine_ridge_doc"
    by (simp add: example_defs by_id_def)
  from 0 1 2 3
    review_post_fails_after_saving [where schema = accept_all and b = great and s = two_camps
      and v = id0 and i = id0 and c = pine_ridge_doc and cs = accept_all]
  obtain s' where
    r: "router_app accept_all accept_all
          \<lparr>req_method = POST, req_path = [''campgrounds'', id0, ''reviews''], body = great\<rparr> two_camps
        = (Sent \<lparr>status = 500,
                 content = View ''error'' (LErr (TypeError ''req.flash is not a function''))\<rparr>, s')"
    by blast
  have "snd (router_app accept_all accept_all
          \<lparr>req_method = POST, req_path = [''campgrounds'', id0, ''reviews''], body = great\<rparr> two_camps)
        = two_camps
          \<lparr>campground_docs := [pine_ridge_doc\<lparr>reviews := [id2, id4]\<rparr>, lake_view_doc],
           review_docs :=
             [great_doc, noisy_doc,
              \<lparr>r_id = id4, r_fields = [(''rating'', ''5''), (''body'', ''Great'')]\<rparr>],
           next_id := 5\<rparr>"
    by code_simp
  with r show ?thesis by (simp add: TypeError_def)
qed

section \<open>Unknown identifiers\<close>






end
